theory Spec2Isabelle
  imports Main "HOL-Library.Sublist" "HOL-Library.Multiset" "HOL-Library.Signed_Division"
begin

section \<open>Go primitives used by the program\<close>

text \<open>
  Go strings are byte sequences; \<open>string\<close> (a list of 8-bit \<open>char\<close>) is used for them, so
  \<open>len(s)\<close> is \<open>length s\<close> and \<open>s[i]\<close> is the byte \<open>s ! i\<close>. The text-input widget keeps
  runes and counts its cursor in runes, while the program indexes the bytes of \<open>Value()\<close>
  with that cursor; the model keeps both: the text as the bytes that \<open>Value()\<close> returns and
  the number of runes in it. Go's \<open>int\<close> is modelled as \<open>int\<close>: no length or score of this
  program comes near 64 bits.
\<close>

text \<open>Go's \<open>/\<close> and \<open>%\<close> on \<open>int\<close> truncate towards zero.\<close>

definition go_div :: "int \<Rightarrow> int \<Rightarrow> int" where
  "go_div a b = a sdiv b"

definition go_mod :: "int \<Rightarrow> int \<Rightarrow> int" where
  "go_mod a b = a smod b"

text \<open>
  UTF-8 as package \<open>unicode/utf8\<close> decodes it. \<open>runeSize s\<close> is the number of bytes of the
  rune at the start of \<open>s\<close> (the size that \<open>utf8.DecodeRuneInString\<close> reports): 1 for an
  ASCII byte, 2 to 4 for a well-formed multi-byte sequence, and 1 for a byte that starts no
  well-formed sequence. \<open>utf8.RuneCountInString\<close> counts the runes of a string that way;
  for the text of the widget it is the length of its rune slice.
\<close>

definition byteIn :: "string \<Rightarrow> nat \<Rightarrow> nat \<Rightarrow> nat \<Rightarrow> bool" where
  "byteIn s i lo hi = (i < length s \<and> lo \<le> (of_char (s ! i) :: nat) \<and> (of_char (s ! i) :: nat) \<le> hi)"

definition runeSize :: "string \<Rightarrow> nat" where
  "runeSize s =
     (case s of
        [] \<Rightarrow> 0
      | c # rest \<Rightarrow>
          (let c0 = (of_char c :: nat)
           in if c0 < 0x80 then 1
              else if 0xC2 \<le> c0 \<and> c0 \<le> 0xDF
              then (if byteIn s 1 0x80 0xBF then 2 else 1)
              else if c0 = 0xE0
              then (if byteIn s 1 0xA0 0xBF \<and> byteIn s 2 0x80 0xBF then 3 else 1)
              else if c0 = 0xED
              then (if byteIn s 1 0x80 0x9F \<and> byteIn s 2 0x80 0xBF then 3 else 1)
              else if 0xE1 \<le> c0 \<and> c0 \<le> 0xEF
              then (if byteIn s 1 0x80 0xBF \<and> byteIn s 2 0x80 0xBF then 3 else 1)
              else if c0 = 0xF0
              then (if byteIn s 1 0x90 0xBF \<and> byteIn s 2 0x80 0xBF \<and> byteIn s 3 0x80 0xBF
                    then 4 else 1)
              else if 0xF1 \<le> c0 \<and> c0 \<le> 0xF3
              then (if byteIn s 1 0x80 0xBF \<and> byteIn s 2 0x80 0xBF \<and> byteIn s 3 0x80 0xBF
                    then 4 else 1)
              else if c0 = 0xF4
              then (if byteIn s 1 0x80 0x8F \<and> byteIn s 2 0x80 0xBF \<and> byteIn s 3 0x80 0xBF
                    then 4 else 1)
              else 1))"

lemma runeSize_pos: "s \<noteq> [] \<Longrightarrow> 0 < runeSize s"
  by (cases s) (simp_all add: runeSize_def Let_def)

function RuneCountInString :: "string \<Rightarrow> nat" where
  "RuneCountInString s = (if s = [] then 0 else 1 + RuneCountInString (drop (runeSize s) s))"
  by pat_completeness auto
termination
  by (relation "measure length") (simp_all add: runeSize_pos)

declare RuneCountInString.simps [simp del]

text \<open>\<open>strings.HasPrefix\<close> and \<open>strings.Contains\<close> (argument order as in Go: the text first).\<close>

definition HasPrefix :: "string \<Rightarrow> string \<Rightarrow> bool" where
  "HasPrefix s p = prefix p s"

fun Contains :: "string \<Rightarrow> string \<Rightarrow> bool" where
  "Contains [] sub = (sub = [])"
| "Contains (c # s) sub = (prefix sub (c # s) \<or> Contains s sub)"

text \<open>\<open>fmt.Sprintf("%d", n)\<close> for the non-negative numbers the program prints.\<close>

definition digitChar :: "nat \<Rightarrow> char" where
  "digitChar d = char_of (48 + d)"

fun showNat :: "nat \<Rightarrow> string" where
  "showNat n = (if n < 10 then [digitChar n] else showNat (n div 10) @ [digitChar (n mod 10)])"

declare showNat.simps [simp del]

text \<open>
  The in-place exchange sort that the program writes out twice (in the store and in the
  contact search): for every \<open>i\<close>, every later \<open>j\<close> whose element is greater (\<open>gt\<close>) than
  the one at \<open>i\<close> is swapped into position \<open>i\<close>.
  \<^verbatim>\<open>
  for i := 0; i < len(xs)-1; i++ {
      for j := i + 1; j < len(xs); j++ {
          if gt(xs[j], xs[i]) { xs[i], xs[j] = xs[j], xs[i] }
      }
  }
  \<close>
\<close>

function sortInner :: "('a \<Rightarrow> 'a \<Rightarrow> bool) \<Rightarrow> nat \<Rightarrow> nat \<Rightarrow> 'a list \<Rightarrow> 'a list" where
  "sortInner gt i j xs =
     (if j < length xs
      then sortInner gt i (j + 1)
             (if gt (xs ! j) (xs ! i) then xs[i := xs ! j, j := xs ! i] else xs)
      else xs)"
  by pat_completeness auto
termination
  by (relation "measure (\<lambda>(gt, i, j, xs). length xs - j)") auto

declare sortInner.simps [simp del]

lemma length_sortInner: "length (sortInner gt i j xs) = length xs"
proof (induction gt i j xs rule: sortInner.induct)
  case (1 gt i j xs)
  show ?case
  proof (cases "j < length xs")
    case True
    with "1" show ?thesis by (subst sortInner.simps) simp
  next
    case False
    then show ?thesis by (subst sortInner.simps) simp
  qed
qed

function sortOuter :: "('a \<Rightarrow> 'a \<Rightarrow> bool) \<Rightarrow> nat \<Rightarrow> 'a list \<Rightarrow> 'a list" where
  "sortOuter gt i xs =
     (if i + 1 < length xs then sortOuter gt (i + 1) (sortInner gt i (i + 1) xs) else xs)"
  by pat_completeness auto
termination
  by (relation "measure (\<lambda>(gt, i, xs). length xs - i)") (simp_all add: length_sortInner)

declare sortOuter.simps [simp del]

definition exchangeSort :: "('a \<Rightarrow> 'a \<Rightarrow> bool) \<Rightarrow> 'a list \<Rightarrow> 'a list" where
  "exchangeSort gt xs = sortOuter gt 0 xs"

section \<open>The store: cached conversations and messages\<close>

text \<open>A \<open>time.Time\<close> is modelled by its instant, an integer count of nanoseconds.\<close>

record Conversation =
  ID :: string
  Name :: string
  LatestMessage :: string
  LatestTimestamp :: int
  Unread :: bool
  IsGroup :: bool
  Participants :: "string list"
  AvatarURL :: string

record Message =
  msg_ID :: string
  ConversationID :: string
  SenderID :: string
  SenderName :: string
  Content :: string
  Timestamp :: int
  IsFromMe :: bool
  Status :: string
  Reactions :: "string list"
  MediaURL :: string
  MediaType :: string

record Store =
  st_conversations :: "string \<rightharpoonup> Conversation"
  st_messages :: "string \<rightharpoonup> Message list"

text \<open>\<open>t.After(u)\<close>: the instant \<open>t\<close> is strictly later than \<open>u\<close>.\<close>

definition After :: "int \<Rightarrow> int \<Rightarrow> bool" where
  "After t u = (t > u)"

text \<open>
  \<open>Store.GetConversations\<close>. Go iterates a map in an unspecified order; \<open>order\<close> is the
  order in which this call happens to visit the keys (each key of the map once). The
  values are collected in that order and then sorted in place, newest first.
\<close>

definition GetConversations :: "string list \<Rightarrow> Store \<Rightarrow> Conversation list" where
  "GetConversations order s =
     exchangeSort (\<lambda>a b. After (LatestTimestamp a) (LatestTimestamp b))
       (List.map_filter (st_conversations s) order)"


section \<open>Messages and commands of the event loop\<close>

text \<open>
  A key press as the program sees it: the key type, the runes, the alt flag, and the
  text that \<open>msg.String()\<close> returns for it (\<open>"esc"\<close>, \<open>"enter"\<close>, \<open>"tab"\<close>, \<open>"ctrl+r"\<close>,
  or the typed character). Only the key types the program tests are distinguished.
\<close>

datatype KeyType = KeyRunes | KeyEscape | KeyEnter | KeyBackspace | KeyCtrlA | KeyCtrlU
  | KeyCtrlW | KeyCtrlAt | KeyOther

record KeyMsg =
  keyType :: KeyType
  keyRunes :: string
  keyAlt :: bool
  keyString :: string

datatype EventType = EventTypeUnknown | EventTypeConnected | EventTypeDisconnected
  | EventTypeNewMessage | EventTypeMessageUpdated | EventTypeConversationsUpdated
  | EventTypeTypingIndicator | EventTypeReadReceipt | EventTypeError

text \<open>A Go \<open>error\<close> is modelled by its message; \<open>None\<close> is \<open>nil\<close>.\<close>

record Event =
  evType :: EventType
  evMessage :: "Message option"
  evError :: "string option"

datatype Msg =
    TeaKeyMsg KeyMsg
  | WindowSizeMsg int int
  | ClientEvent Event
  | SendMessageMsg string
  | OpenEditorMsg string
  | AttachFileMsg
  | EditorResultMsg string "string option"
  | EditorCancelledMsg
  | conversationsLoadedMsg "Conversation list"
  | messagesLoadedMsg string "Message list"
  | messageSentMsg
  | qrCodeMsg string
  | connectedMsg
  | errorMsg string
  | MessageSentNotifyMsg
  | MessageFailedNotifyMsg
  | OtherMsg

text \<open>
  A \<open>tea.Cmd\<close> is background work that later delivers a message. The model records which
  work was requested: the closures that only return a message, the calls to the chat
  client, the listener on the external channel, the editor process, quitting, and the
  command that the text-input widget hands back (opaque). A \<open>nil\<close> command is \<open>None\<close>.
\<close>

datatype Cmd =
    ReturnSendMessageMsg string
  | ReturnOpenEditorMsg string
  | ReturnAttachFileMsg
  | ReturnConnectedMsg
  | TextInputCmd
  | QuitCmd
  | LoadConversationsCmd
  | LoadMessagesCmd string
  | ClientSendMessageCmd string string
  | ListenForExternalMsgsCmd
  | StartEditorCmd string

section \<open>The text-input widget (library)\<close>

text \<open>
  \<open>textinput.Model\<close> of the bubbles library holds the text as runes, the cursor as an
  index into the runes, and a focus flag. \<open>ti_value\<close> is the text as \<open>Value()\<close> returns it
  (the UTF-8 bytes of the runes), so the widget's \<open>len(m.value)\<close> is the number of runes of
  \<open>ti_value\<close>. Its operations are modelled from the library: \<open>SetCursor\<close> clamps the
  position into \<open>[0, len(m.value)]\<close>; \<open>Reset\<close> empties the text and moves the cursor to 0;
  \<open>SetValue\<close> stores the sanitised text and moves the cursor to the end when it was at 0
  on an empty text or lies beyond the new text.
\<close>

record textinput =
  ti_value :: string
  ti_pos :: int
  ti_focus :: bool
  ti_Width :: int

text \<open>
  Library functions that the model takes as parameters: what the widget does with a
  message in insert mode (\<open>Update\<close>: the new widget and whether it hands back a command),
  the text that \<open>Value()\<close> returns after \<open>SetValue(s)\<close> (sanitised and cut to the character
  limit), and \<open>strings.ToLower\<close> and \<open>strings.TrimSpace\<close>, which follow the Unicode tables.
\<close>

record Library =
  tiUpdate :: "Msg \<Rightarrow> textinput \<Rightarrow> textinput \<times> bool"
  tiSanitize :: "string \<Rightarrow> string"
  strToLower :: "string \<Rightarrow> string"
  strTrimSpace :: "string \<Rightarrow> string"

definition clamp :: "int \<Rightarrow> int \<Rightarrow> int \<Rightarrow> int" where
  "clamp v low high = (if high < low then min low (max high v) else min high (max low v))"

definition ti_Value :: "textinput \<Rightarrow> string" where
  "ti_Value t = ti_value t"

definition ti_Position :: "textinput \<Rightarrow> int" where
  "ti_Position t = ti_pos t"

definition ti_SetCursor :: "int \<Rightarrow> textinput \<Rightarrow> textinput" where
  "ti_SetCursor p t = t\<lparr>ti_pos := clamp p 0 (int (RuneCountInString (ti_value t)))\<rparr>"

definition ti_SetValue :: "Library \<Rightarrow> string \<Rightarrow> textinput \<Rightarrow> textinput" where
  "ti_SetValue L s t =
     (let empty = (ti_value t = []);
          t1 = t\<lparr>ti_value := tiSanitize L s\<rparr>
      in if (ti_pos t1 = 0 \<and> empty) \<or> ti_pos t1 > int (RuneCountInString (ti_value t1))
         then ti_SetCursor (int (RuneCountInString (ti_value t1))) t1 else t1)"

definition ti_Reset :: "textinput \<Rightarrow> textinput" where
  "ti_Reset t = ti_SetCursor 0 (t\<lparr>ti_value := []\<rparr>)"

definition ti_Focus :: "textinput \<Rightarrow> textinput" where
  "ti_Focus t = t\<lparr>ti_focus := True\<rparr>"

definition ti_Blur :: "textinput \<Rightarrow> textinput" where
  "ti_Blur t = t\<lparr>ti_focus := False\<rparr>"

section \<open>The modal editor: \<open>InputModel\<close>\<close>

datatype InputMode = ModeInsert | ModeNormal

datatype PendingAction = PendingNone | PendingFindForward | PendingFindBackward
  | PendingChange | PendingDelete

text \<open>\<open>lastFindChar\<close> is a Go \<open>byte\<close> whose zero value means that nothing was searched yet.\<close>

record InputModel =
  textInput :: textinput
  draftContent :: string
  in_width :: int
  in_focused :: bool
  sending :: bool
  mode :: InputMode
  pendingAction :: PendingAction
  lastFindChar :: char
  lastFindDir :: int

text \<open>
  The word loops. They index the bytes of the text at the cursor, which the widget keeps
  between 0 and the number of runes, hence inside \<open>[0, len(val)]\<close>; with a position in that
  range every index below is in range.
  \<^verbatim>\<open>for pos < len(val) && val[pos] != ' ' { pos++ }\<close>
\<close>

function skipWord :: "string \<Rightarrow> int \<Rightarrow> int" where
  "skipWord val pos =
     (if pos < int (length val) \<and> val ! nat pos \<noteq> CHR '' '' then skipWord val (pos + 1) else pos)"
  by pat_completeness auto
termination
  by (relation "measure (\<lambda>(val, pos). nat (int (length val) - pos))") auto

declare skipWord.simps [simp del]

text \<open>\<^verbatim>\<open>for pos < len(val) && val[pos] == ' ' { pos++ }\<close>\<close>

function skipSpaces :: "string \<Rightarrow> int \<Rightarrow> int" where
  "skipSpaces val pos =
     (if pos < int (length val) \<and> val ! nat pos = CHR '' '' then skipSpaces val (pos + 1) else pos)"
  by pat_completeness auto
termination
  by (relation "measure (\<lambda>(val, pos). nat (int (length val) - pos))") auto

declare skipSpaces.simps [simp del]

text \<open>\<^verbatim>\<open>for pos > 0 && val[pos-1] == ' ' { pos-- }\<close>\<close>

function backSpaces :: "string \<Rightarrow> int \<Rightarrow> int" where
  "backSpaces val pos =
     (if pos > 0 \<and> val ! nat (pos - 1) = CHR '' '' then backSpaces val (pos - 1) else pos)"
  by pat_completeness auto
termination
  by (relation "measure (\<lambda>(val, pos). nat pos)") auto

declare backSpaces.simps [simp del]

text \<open>\<^verbatim>\<open>for pos > 0 && val[pos-1] != ' ' { pos-- }\<close>\<close>

function backWord :: "string \<Rightarrow> int \<Rightarrow> int" where
  "backWord val pos =
     (if pos > 0 \<and> val ! nat (pos - 1) \<noteq> CHR '' '' then backWord val (pos - 1) else pos)"
  by pat_completeness auto
termination
  by (relation "measure (\<lambda>(val, pos). nat pos)") auto

declare backWord.simps [simp del]

text \<open>
  The search loops of \<open>f\<close>, \<open>F\<close>, \<open>;\<close> and \<open>,\<close>: the first index from \<open>i\<close> upwards (downwards)
  that holds the character, if there is one.
  \<^verbatim>\<open>for i := pos + 1; i < len(val); i++ { if val[i] == c { SetCursor(i); break } }\<close>
  \<^verbatim>\<open>for i := pos - 1; i >= 0; i-- { if val[i] == c { SetCursor(i); break } }\<close>
\<close>

function findForward :: "string \<Rightarrow> char \<Rightarrow> int \<Rightarrow> int option" where
  "findForward val c i =
     (if i < int (length val)
      then (if val ! nat i = c then Some i else findForward val c (i + 1))
      else None)"
  by pat_completeness auto
termination
  by (relation "measure (\<lambda>(val, c, i). nat (int (length val) - i))") auto

declare findForward.simps [simp del]

function findBackward :: "string \<Rightarrow> char \<Rightarrow> int \<Rightarrow> int option" where
  "findBackward val c i =
     (if i \<ge> 0
      then (if val ! nat i = c then Some i else findBackward val c (i - 1))
      else None)"
  by pat_completeness auto
termination
  by (relation "measure (\<lambda>(val, c, i). nat (i + 1))") auto

declare findBackward.simps [simp del]

definition setCursorIfFound :: "int option \<Rightarrow> InputModel \<Rightarrow> InputModel" where
  "setCursorIfFound r m =
     (case r of Some i \<Rightarrow> m\<lparr>textInput := ti_SetCursor i (textInput m)\<rparr> | None \<Rightarrow> m)"

definition moveToNextWord :: "InputModel \<Rightarrow> InputModel" where
  "moveToNextWord m =
     (let val = ti_Value (textInput m);
          pos = ti_Position (textInput m);
          pos = skipWord val pos;
          pos = skipSpaces val pos
      in m\<lparr>textInput := ti_SetCursor pos (textInput m)\<rparr>)"

definition moveToPrevWord :: "InputModel \<Rightarrow> InputModel" where
  "moveToPrevWord m =
     (let val = ti_Value (textInput m);
          pos = ti_Position (textInput m);
          pos = backSpaces val pos;
          pos = backWord val pos
      in m\<lparr>textInput := ti_SetCursor pos (textInput m)\<rparr>)"

definition moveToEndOfWord :: "InputModel \<Rightarrow> InputModel" where
  "moveToEndOfWord m =
     (let val = ti_Value (textInput m);
          pos = ti_Position (textInput m);
          pos = (if pos < int (length val) then pos + 1 else pos);
          pos = skipSpaces val pos;
          pos = skipWord val pos;
          pos = (if pos > 0 \<and> (pos \<ge> int (length val) \<or> val ! nat pos = CHR '' '')
                 then pos - 1 else pos)
      in m\<lparr>textInput := ti_SetCursor pos (textInput m)\<rparr>)"

definition deleteCharAtCursor :: "Library \<Rightarrow> InputModel \<Rightarrow> InputModel" where
  "deleteCharAtCursor L m =
     (let val = ti_Value (textInput m);
          pos = ti_Position (textInput m)
      in if pos < int (length val)
         then m\<lparr>textInput :=
                  ti_SetCursor pos
                    (ti_SetValue L (take (nat pos) val @ drop (nat (pos + 1)) val) (textInput m))\<rparr>
         else m)"

definition deleteToEndOfLine :: "Library \<Rightarrow> InputModel \<Rightarrow> InputModel" where
  "deleteToEndOfLine L m =
     (let val = ti_Value (textInput m);
          pos = ti_Position (textInput m)
      in if pos < int (length val)
         then m\<lparr>textInput := ti_SetCursor pos (ti_SetValue L (take (nat pos) val) (textInput m))\<rparr>
         else m)"

definition deleteToBeginningOfLine :: "Library \<Rightarrow> InputModel \<Rightarrow> InputModel" where
  "deleteToBeginningOfLine L m =
     (let val = ti_Value (textInput m);
          pos = ti_Position (textInput m)
      in if pos > 0
         then m\<lparr>textInput := ti_SetCursor 0 (ti_SetValue L (drop (nat pos) val) (textInput m))\<rparr>
         else m)"

definition repeatFind :: "int \<Rightarrow> InputModel \<Rightarrow> InputModel" where
  "repeatFind dir m =
     (let val = ti_Value (textInput m);
          pos = ti_Position (textInput m)
      in if dir > 0
         then setCursorIfFound (findForward val (lastFindChar m) (pos + 1)) m
         else setCursorIfFound (findBackward val (lastFindChar m) (pos - 1)) m)"

definition deleteToEndOfWord :: "Library \<Rightarrow> InputModel \<Rightarrow> InputModel" where
  "deleteToEndOfWord L m =
     (let val = ti_Value (textInput m);
          pos = ti_Position (textInput m);
          endPos = skipWord val pos;
          endPos = skipSpaces val endPos
      in if endPos > pos
         then m\<lparr>textInput :=
                  ti_SetCursor pos
                    (ti_SetValue L (take (nat pos) val @ drop (nat endPos) val) (textInput m))\<rparr>
         else m)"

text \<open>The focus of the widget follows the mode: \<open>m.textInput.Focus()\<close> and \<open>Blur()\<close>.\<close>

definition enterInsert :: "InputModel \<Rightarrow> InputModel" where
  "enterInsert m = m\<lparr>mode := ModeInsert, textInput := ti_Focus (textInput m)\<rparr>"

text \<open>
  The Enter branch, written twice in the source (insert and normal mode): the trimmed
  draft, or else the trimmed single-line text, is sent if it is not empty.
\<close>

definition sendContent :: "Library \<Rightarrow> InputModel \<Rightarrow> string" where
  "sendContent L m =
     (let content = strTrimSpace L (draftContent m)
      in if content = [] then strTrimSpace L (ti_Value (textInput m)) else content)"

definition pressEnter :: "Library \<Rightarrow> InputModel \<Rightarrow> InputModel \<times> Cmd option" where
  "pressEnter L m =
     (let content = sendContent L m
      in if content \<noteq> []
         then (m\<lparr>textInput := ti_Reset (textInput m), draftContent := [], sending := True\<rparr>,
               Some (ReturnSendMessageMsg content))
         else (m, None))"

text \<open>\<open>m.textInput, cmd = m.textInput.Update(msg)\<close>.\<close>

definition widgetUpdate :: "Library \<Rightarrow> Msg \<Rightarrow> InputModel \<Rightarrow> InputModel \<times> Cmd option" where
  "widgetUpdate L msg m =
     (let (t, hasCmd) = tiUpdate L msg (textInput m)
      in (m\<lparr>textInput := t\<rparr>, if hasCmd then Some TextInputCmd else None))"

definition handleInsertMode :: "Library \<Rightarrow> KeyMsg \<Rightarrow> InputModel \<Rightarrow> InputModel \<times> Cmd option" where
  "handleInsertMode L msg m =
     (case keyType msg of
        KeyEscape \<Rightarrow> (m\<lparr>mode := ModeNormal, textInput := ti_Blur (textInput m)\<rparr>, None)
      | KeyEnter \<Rightarrow> pressEnter L m
      | KeyCtrlA \<Rightarrow> (m, Some ReturnAttachFileMsg)
      | _ \<Rightarrow> widgetUpdate L (TeaKeyMsg msg) m)"

definition handlePendingAction :: "Library \<Rightarrow> KeyMsg \<Rightarrow> InputModel \<Rightarrow> InputModel \<times> Cmd option" where
  "handlePendingAction L msg m =
     (let char = keyString msg
      in if char = ''esc'' then (m\<lparr>pendingAction := PendingNone\<rparr>, None)
         else
           let val = ti_Value (textInput m);
               pos = ti_Position (textInput m)
           in case pendingAction m of
                PendingFindForward \<Rightarrow>
                  if length char \<noteq> 1 then (m\<lparr>pendingAction := PendingNone\<rparr>, None)
                  else
                    let targetChar = hd char;
                        m = m\<lparr>lastFindChar := targetChar, lastFindDir := 1\<rparr>;
                        m = setCursorIfFound (findForward val targetChar (pos + 1)) m
                    in (m\<lparr>pendingAction := PendingNone\<rparr>, None)
              | PendingFindBackward \<Rightarrow>
                  if length char \<noteq> 1 then (m\<lparr>pendingAction := PendingNone\<rparr>, None)
                  else
                    let targetChar = hd char;
                        m = m\<lparr>lastFindChar := targetChar, lastFindDir := - 1\<rparr>;
                        m = setCursorIfFound (findBackward val targetChar (pos - 1)) m
                    in (m\<lparr>pendingAction := PendingNone\<rparr>, None)
              | PendingChange \<Rightarrow>
                  let m = m\<lparr>pendingAction := PendingNone\<rparr>
                  in if char = ''w'' \<or> char = ''e'' then (enterInsert (deleteToEndOfWord L m), None)
                     else if char = ''$'' then (enterInsert (deleteToEndOfLine L m), None)
                     else if char = ''c''
                     then (enterInsert (m\<lparr>textInput := ti_Reset (textInput m), draftContent := []\<rparr>), None)
                     else if char = ''0'' then (enterInsert (deleteToBeginningOfLine L m), None)
                     else (m, None)
              | PendingDelete \<Rightarrow>
                  let m = m\<lparr>pendingAction := PendingNone\<rparr>
                  in if char = ''w'' \<or> char = ''e'' then (deleteToEndOfWord L m, None)
                     else if char = ''$'' then (deleteToEndOfLine L m, None)
                     else if char = ''d''
                     then (m\<lparr>textInput := ti_Reset (textInput m), draftContent := []\<rparr>, None)
                     else if char = ''0'' then (deleteToBeginningOfLine L m, None)
                     else (m, None)
              | PendingNone \<Rightarrow> (m\<lparr>pendingAction := PendingNone\<rparr>, None))"

definition handleNormalKey :: "Library \<Rightarrow> string \<Rightarrow> InputModel \<Rightarrow> InputModel \<times> Cmd option" where
  "handleNormalKey L k m =
     (if k = ''i'' then (enterInsert m, None)
      else if k = ''a'' then
        (let m = enterInsert m;
             pos = ti_Position (textInput m)
         in (m\<lparr>textInput := ti_SetCursor (pos + 1) (textInput m)\<rparr>, None))
      else if k = ''A'' then
        (let m = enterInsert m
         in (m\<lparr>textInput := ti_SetCursor (int (length (ti_Value (textInput m)))) (textInput m)\<rparr>, None))
      else if k = ''I'' then
        (let m = enterInsert m
         in (m\<lparr>textInput := ti_SetCursor 0 (textInput m)\<rparr>, None))
      else if k = ''v'' then
        (let currentContent = draftContent m;
             currentContent = (if currentContent = [] then ti_Value (textInput m) else currentContent)
         in (m, Some (ReturnOpenEditorMsg currentContent)))
      else if k = ''d'' then (m\<lparr>pendingAction := PendingDelete\<rparr>, None)
      else if k = ''D'' then (deleteToEndOfLine L m, None)
      else if k = ''c'' then (m\<lparr>pendingAction := PendingChange\<rparr>, None)
      else if k = ''C'' then (enterInsert (deleteToEndOfLine L m), None)
      else if k = ''f'' then (m\<lparr>pendingAction := PendingFindForward\<rparr>, None)
      else if k = ''F'' then (m\<lparr>pendingAction := PendingFindBackward\<rparr>, None)
      else if k = '';'' then
        ((if lastFindChar m \<noteq> CHR 0x00 then repeatFind (lastFindDir m) m else m), None)
      else if k = '','' then
        ((if lastFindChar m \<noteq> CHR 0x00 then repeatFind (- lastFindDir m) m else m), None)
      else if k = ''0'' then (m\<lparr>textInput := ti_SetCursor 0 (textInput m)\<rparr>, None)
      else if k = ''$'' then
        (m\<lparr>textInput := ti_SetCursor (int (length (ti_Value (textInput m)))) (textInput m)\<rparr>, None)
      else if k = ''h'' then
        (let pos = ti_Position (textInput m)
         in ((if pos > 0 then m\<lparr>textInput := ti_SetCursor (pos - 1) (textInput m)\<rparr> else m), None))
      else if k = ''l'' then
        (let pos = ti_Position (textInput m)
         in ((if pos < int (length (ti_Value (textInput m)))
              then m\<lparr>textInput := ti_SetCursor (pos + 1) (textInput m)\<rparr> else m), None))
      else if k = ''w'' then (moveToNextWord m, None)
      else if k = ''b'' then (moveToPrevWord m, None)
      else if k = ''e'' then (moveToEndOfWord m, None)
      else if k = ''x'' then (deleteCharAtCursor L m, None)
      else if k = ''enter'' then pressEnter L m
      else if k = ''esc'' then (m\<lparr>pendingAction := PendingNone\<rparr>, None)
      else (m, None))"

definition handleNormalMode :: "Library \<Rightarrow> KeyMsg \<Rightarrow> InputModel \<Rightarrow> InputModel \<times> Cmd option" where
  "handleNormalMode L msg m =
     (if pendingAction m \<noteq> PendingNone then handlePendingAction L msg m
      else handleNormalKey L (keyString msg) m)"

text \<open>\<open>InputModel.Update\<close>.\<close>

definition InputModel_Update :: "Library \<Rightarrow> Msg \<Rightarrow> InputModel \<Rightarrow> InputModel \<times> Cmd option" where
  "InputModel_Update L msg m =
     (let widget =
            (if in_focused m \<and> mode m = ModeInsert then widgetUpdate L msg m else (m, None))
      in case msg of
           MessageSentNotifyMsg \<Rightarrow> (m\<lparr>sending := False\<rparr>, None)
         | MessageFailedNotifyMsg \<Rightarrow> (m\<lparr>sending := False\<rparr>, None)
         | TeaKeyMsg k \<Rightarrow>
             if in_focused m
             then (if mode m = ModeNormal then handleNormalMode L k m else handleInsertMode L k m)
             else widget
         | _ \<Rightarrow> widget)"

text \<open>\<open>strings.Split(value, "\n")\<close>: the pieces between the newlines, at least one.\<close>

fun splitLines :: "string \<Rightarrow> string list" where
  "splitLines [] = [[]]"
| "splitLines (c # cs) =
     (if c = CHR 0x0A then [] # splitLines cs
      else (case splitLines cs of l # ls \<Rightarrow> (c # l) # ls | [] \<Rightarrow> [[c]]))"

definition InputModel_SetValue :: "Library \<Rightarrow> string \<Rightarrow> InputModel \<Rightarrow> InputModel" where
  "InputModel_SetValue L v m =
     (let m = m\<lparr>draftContent := v\<rparr>
      in if CHR 0x0A \<in> set v
         then
           (let lines = splitLines v;
                lineCount = length lines;
                preview = hd lines;
                preview = (if length preview > 30 then take 30 preview @ ''...'' else preview)
            in m\<lparr>textInput :=
                    ti_SetValue L (preview @ '' [+'' @ showNat (lineCount - 1) @ '' lines]'')
                      (textInput m)\<rparr>)
         else m\<lparr>textInput := ti_SetValue L v (textInput m)\<rparr>)"

definition InputModel_SetWidth :: "int \<Rightarrow> InputModel \<Rightarrow> InputModel" where
  "InputModel_SetWidth w m = m\<lparr>in_width := w, textInput := (textInput m)\<lparr>ti_Width := w - 8\<rparr>\<rparr>"

definition InputModel_SetFocused :: "bool \<Rightarrow> InputModel \<Rightarrow> InputModel" where
  "InputModel_SetFocused f m =
     (let m = m\<lparr>in_focused := f\<rparr>
      in if f then m\<lparr>mode := ModeInsert, textInput := ti_Focus (textInput m)\<rparr>
         else m\<lparr>textInput := ti_Blur (textInput m)\<rparr>)"

definition InputModel_Value :: "InputModel \<Rightarrow> string" where
  "InputModel_Value m = ti_Value (textInput m)"

section \<open>The conversation list: \<open>ContactsModel\<close>\<close>

text \<open>
  A \<open>key.Binding\<close> is the list of key names it accepts; \<open>key.Matches\<close> compares
  \<open>msg.String()\<close> with each of them (the program never disables a binding).
\<close>

type_synonym Binding = "string list"

definition Matches :: "KeyMsg \<Rightarrow> Binding \<Rightarrow> bool" where
  "Matches msg b = (keyString msg \<in> set b)"

record ContactsKeyMap =
  ck_Up :: Binding
  ck_Down :: Binding
  ck_Top :: Binding
  ck_Bottom :: Binding
  ck_Select :: Binding
  ck_Search :: Binding

definition DefaultContactsKeyMap :: ContactsKeyMap where
  "DefaultContactsKeyMap = \<lparr>ck_Up = [''up'', ''k''], ck_Down = [''down'', ''j''], ck_Top = [''g''],
     ck_Bottom = [''G''], ck_Select = [''enter''], ck_Search = [''/'']\<rparr>"

record ContactsModel =
  ct_conversations :: "Conversation list"
  ct_selected :: int
  ct_offset :: int
  ct_width :: int
  ct_height :: int
  ct_focused :: bool
  ct_keyMap :: ContactsKeyMap
  searchMode :: bool
  searchQuery :: string
  ct_lastKeyWasG :: bool

text \<open>
  The scoring loop of \<open>fuzzyMatch\<close>: \<open>i\<close> runs over the target, \<open>queryIdx\<close> over the query;
  it returns the final \<open>queryIdx\<close> and \<open>score\<close>.
\<close>

function fuzzyLoop :: "string \<Rightarrow> string \<Rightarrow> nat \<Rightarrow> nat \<Rightarrow> int \<Rightarrow> int \<Rightarrow> int \<Rightarrow> nat \<times> int" where
  "fuzzyLoop query target i queryIdx score lastMatchIdx consecutive =
     (if i < length target \<and> queryIdx < length query
      then
        (if target ! i = query ! queryIdx
         then
           (let score = score + 10;
                consecutive = (if lastMatchIdx = int i - 1 then consecutive + 1 else 0);
                score = (if lastMatchIdx = int i - 1 then score + consecutive * 5 else score);
                score = (if i = 0 \<or> target ! (i - 1) = CHR '' '' \<or> target ! (i - 1) = CHR ''-''
                            \<or> target ! (i - 1) = CHR ''_''
                         then score + 20 else score)
            in fuzzyLoop query target (i + 1) (queryIdx + 1) score (int i) consecutive)
         else fuzzyLoop query target (i + 1) queryIdx score lastMatchIdx consecutive)
      else (queryIdx, score))"
  by pat_completeness auto
termination
  by (relation "measure (\<lambda>(query, target, i, queryIdx, score, lastMatchIdx, consecutive).
        length target - i)") auto

declare fuzzyLoop.simps [simp del]

definition fuzzyMatch :: "string \<Rightarrow> string \<Rightarrow> int" where
  "fuzzyMatch query target =
     (if query = [] then 1
      else if target = [] then 0
      else if Contains target query
      then (if HasPrefix target query then 1000 + int (length query) else 500 + int (length query))
      else
        (let (queryIdx, score) = fuzzyLoop query target 0 0 0 (- 1) 0
         in if queryIdx < length query then 0 else score))"

record scored =
  conv :: Conversation
  score :: int

text \<open>The loop that scores every conversation and keeps those with a positive score.\<close>

fun scoreConversations :: "Library \<Rightarrow> string \<Rightarrow> Conversation list \<Rightarrow> scored list" where
  "scoreConversations L query [] = []"
| "scoreConversations L query (c # cs) =
     (let name = strToLower L (Name c);
          sc = fuzzyMatch query name
      in if sc > 0 then \<lparr>conv = c, score = sc\<rparr> # scoreConversations L query cs
         else scoreConversations L query cs)"

definition getFilteredConversations :: "Library \<Rightarrow> ContactsModel \<Rightarrow> Conversation list" where
  "getFilteredConversations L m =
     (if searchQuery m = [] then ct_conversations m
      else
        (let query = strToLower L (searchQuery m);
             results = scoreConversations L query (ct_conversations m);
             results = exchangeSort (\<lambda>a b. score a > score b) results
         in map conv results))"

definition ContactsModel_visibleItemCount :: "ContactsModel \<Rightarrow> int" where
  "ContactsModel_visibleItemCount m = go_div (ct_height m - 3) 2"

definition SelectedConversation :: "Library \<Rightarrow> ContactsModel \<Rightarrow> Conversation option" where
  "SelectedConversation L m =
     (let convs = getFilteredConversations L m
      in if ct_selected m \<ge> 0 \<and> ct_selected m < int (length convs)
         then Some (convs ! nat (ct_selected m)) else None)"

text \<open>\<open>deleteWordBackward\<close>: drop the trailing spaces and then the last word.\<close>

definition deleteWordBackward :: "string \<Rightarrow> string" where
  "deleteWordBackward s =
     (if s = [] then []
      else
        (let end = backSpaces s (int (length s));
             start = backWord s end
         in take (nat start) s))"

definition handleSearchInput :: "KeyMsg \<Rightarrow> ContactsModel \<Rightarrow> ContactsModel \<times> Cmd option" where
  "handleSearchInput msg m =
     (case keyType msg of
        KeyEscape \<Rightarrow> (m\<lparr>searchMode := False, searchQuery := [], ct_selected := 0, ct_offset := 0\<rparr>, None)
      | KeyEnter \<Rightarrow> (m\<lparr>searchMode := False\<rparr>, None)
      | KeyBackspace \<Rightarrow>
          (if length (searchQuery m) > 0
           then (m\<lparr>searchQuery := butlast (searchQuery m), ct_selected := 0, ct_offset := 0\<rparr>, None)
           else (m, None))
      | KeyCtrlU \<Rightarrow> (m\<lparr>searchQuery := [], ct_selected := 0, ct_offset := 0\<rparr>, None)
      | KeyCtrlW \<Rightarrow>
          (m\<lparr>searchQuery := deleteWordBackward (searchQuery m), ct_selected := 0, ct_offset := 0\<rparr>, None)
      | KeyRunes \<Rightarrow>
          (m\<lparr>searchQuery := searchQuery m @ keyRunes msg, ct_selected := 0, ct_offset := 0\<rparr>, None)
      | _ \<Rightarrow> (m, None))"

definition ContactsModel_Update :: "Msg \<Rightarrow> ContactsModel \<Rightarrow> ContactsModel \<times> Cmd option" where
  "ContactsModel_Update msg m =
     (if \<not> ct_focused m then (m, None)
      else case msg of
        TeaKeyMsg k \<Rightarrow>
          if searchMode m then handleSearchInput k m
          else if keyString k = ''g'' then
            (if ct_lastKeyWasG m
             then (m\<lparr>ct_selected := 0, ct_offset := 0, ct_lastKeyWasG := False\<rparr>, None)
             else (m\<lparr>ct_lastKeyWasG := True\<rparr>, None))
          else
            (let m = m\<lparr>ct_lastKeyWasG := False\<rparr>
             in if Matches k (ck_Up (ct_keyMap m)) then
                  (if ct_selected m > 0
                   then (let m = m\<lparr>ct_selected := ct_selected m - 1\<rparr>
                         in ((if ct_selected m < ct_offset m then m\<lparr>ct_offset := ct_selected m\<rparr> else m),
                             None))
                   else (m, None))
                else if Matches k (ck_Down (ct_keyMap m)) then
                  (if ct_selected m < int (length (ct_conversations m)) - 1
                   then (let m = m\<lparr>ct_selected := ct_selected m + 1\<rparr>;
                             visibleItems = ContactsModel_visibleItemCount m
                         in ((if ct_selected m \<ge> ct_offset m + visibleItems
                              then m\<lparr>ct_offset := ct_selected m - visibleItems + 1\<rparr> else m), None))
                   else (m, None))
                else if Matches k (ck_Bottom (ct_keyMap m)) then
                  (if length (ct_conversations m) > 0
                   then (let m = m\<lparr>ct_selected := int (length (ct_conversations m)) - 1\<rparr>;
                             visibleItems = ContactsModel_visibleItemCount m
                         in ((if ct_selected m \<ge> visibleItems
                              then m\<lparr>ct_offset := ct_selected m - visibleItems + 1\<rparr> else m), None))
                   else (m, None))
                else if Matches k (ck_Search (ct_keyMap m)) then
                  (m\<lparr>searchMode := True, searchQuery := []\<rparr>, None)
                else (m, None))
      | _ \<Rightarrow> (m, None))"

definition SetConversations :: "Conversation list \<Rightarrow> ContactsModel \<Rightarrow> ContactsModel" where
  "SetConversations convs m =
     (let m = m\<lparr>ct_conversations := convs\<rparr>
      in if ct_selected m \<ge> int (length convs)
         then m\<lparr>ct_selected := max 0 (int (length convs) - 1)\<rparr> else m)"

definition ContactsModel_SetSize :: "int \<Rightarrow> int \<Rightarrow> ContactsModel \<Rightarrow> ContactsModel" where
  "ContactsModel_SetSize w h m = m\<lparr>ct_width := w, ct_height := h\<rparr>"

definition ContactsModel_SetFocused :: "bool \<Rightarrow> ContactsModel \<Rightarrow> ContactsModel" where
  "ContactsModel_SetFocused f m = m\<lparr>ct_focused := f\<rparr>"

section \<open>The message panel: \<open>MessagesModel\<close>\<close>

record MessagesKeyMap =
  mk_Up :: Binding
  mk_Down :: Binding
  mk_PageUp :: Binding
  mk_PageDown :: Binding
  mk_Top :: Binding
  mk_Bottom :: Binding
  mk_React :: Binding

definition DefaultMessagesKeyMap :: MessagesKeyMap where
  "DefaultMessagesKeyMap = \<lparr>mk_Up = [''up'', ''k''], mk_Down = [''down'', ''j''],
     mk_PageUp = [''pgup'', ''ctrl+u''], mk_PageDown = [''pgdown'', ''ctrl+d''],
     mk_Top = [''home''], mk_Bottom = [''end'', ''G''], mk_React = [''ctrl+r'']\<rparr>"

record MessagesModel =
  ms_messages :: "Message list"
  ms_conversationID :: string
  ms_selected :: int
  ms_offset :: int
  ms_width :: int
  ms_height :: int
  ms_focused :: bool
  ms_keyMap :: MessagesKeyMap
  ms_lastKeyWasG :: bool

definition MessagesModel_visibleItemCount :: "MessagesModel \<Rightarrow> int" where
  "MessagesModel_visibleItemCount m = go_div (ms_height m - 3) 3"

definition MessagesModel_Update :: "Msg \<Rightarrow> MessagesModel \<Rightarrow> MessagesModel \<times> Cmd option" where
  "MessagesModel_Update msg m =
     (if \<not> ms_focused m then (m, None)
      else case msg of
        TeaKeyMsg k \<Rightarrow>
          if keyString k = ''g'' then
            (if ms_lastKeyWasG m
             then (m\<lparr>ms_selected := 0, ms_offset := 0, ms_lastKeyWasG := False\<rparr>, None)
             else (m\<lparr>ms_lastKeyWasG := True\<rparr>, None))
          else
            (let m = m\<lparr>ms_lastKeyWasG := False\<rparr>;
                 n = int (length (ms_messages m))
             in if Matches k (mk_Up (ms_keyMap m)) then
                  (if ms_selected m > 0
                   then (let m = m\<lparr>ms_selected := ms_selected m - 1\<rparr>
                         in ((if ms_selected m < ms_offset m then m\<lparr>ms_offset := ms_selected m\<rparr> else m),
                             None))
                   else (m, None))
                else if Matches k (mk_Down (ms_keyMap m)) then
                  (if ms_selected m < n - 1
                   then (let m = m\<lparr>ms_selected := ms_selected m + 1\<rparr>;
                             visibleItems = MessagesModel_visibleItemCount m
                         in ((if ms_selected m \<ge> ms_offset m + visibleItems
                              then m\<lparr>ms_offset := ms_selected m - visibleItems + 1\<rparr> else m), None))
                   else (m, None))
                else if Matches k (mk_PageUp (ms_keyMap m)) then
                  (let pageSize = MessagesModel_visibleItemCount m
                   in (m\<lparr>ms_selected := max 0 (ms_selected m - pageSize),
                         ms_offset := max 0 (ms_offset m - pageSize)\<rparr>, None))
                else if Matches k (mk_PageDown (ms_keyMap m)) then
                  (let pageSize = MessagesModel_visibleItemCount m;
                       maxSelect = n - 1
                   in (m\<lparr>ms_selected := min maxSelect (ms_selected m + pageSize),
                         ms_offset := min (max 0 (n - pageSize)) (ms_offset m + pageSize)\<rparr>, None))
                else if Matches k (mk_Top (ms_keyMap m)) then
                  (m\<lparr>ms_selected := 0, ms_offset := 0\<rparr>, None)
                else if Matches k (mk_Bottom (ms_keyMap m)) then
                  (if n > 0
                   then (m\<lparr>ms_selected := n - 1,
                           ms_offset := max 0 (n - MessagesModel_visibleItemCount m)\<rparr>, None)
                   else (m, None))
                else (m, None))
      | _ \<Rightarrow> (m, None))"

definition SetMessages :: "string \<Rightarrow> Message list \<Rightarrow> MessagesModel \<Rightarrow> MessagesModel" where
  "SetMessages conversationID msgs m =
     (let m = m\<lparr>ms_conversationID := conversationID, ms_messages := msgs\<rparr>
      in if length msgs > 0
         then m\<lparr>ms_selected := int (length msgs) - 1,
                ms_offset := max 0 (int (length msgs) - MessagesModel_visibleItemCount m)\<rparr>
         else m\<lparr>ms_selected := 0, ms_offset := 0\<rparr>)"

definition AddMessage :: "Message \<Rightarrow> MessagesModel \<Rightarrow> MessagesModel" where
  "AddMessage msg m =
     (if ConversationID msg \<noteq> ms_conversationID m then m
      else
        (let m = m\<lparr>ms_messages := ms_messages m @ [msg]\<rparr>
         in m\<lparr>ms_selected := int (length (ms_messages m)) - 1,
              ms_offset := max 0 (int (length (ms_messages m)) - MessagesModel_visibleItemCount m)\<rparr>))"

definition MessagesModel_SetSize :: "int \<Rightarrow> int \<Rightarrow> MessagesModel \<Rightarrow> MessagesModel" where
  "MessagesModel_SetSize w h m = m\<lparr>ms_width := w, ms_height := h\<rparr>"

definition MessagesModel_SetFocused :: "bool \<Rightarrow> MessagesModel \<Rightarrow> MessagesModel" where
  "MessagesModel_SetFocused f m = m\<lparr>ms_focused := f\<rparr>"

section \<open>The application: \<open>App\<close>\<close>

text \<open>The key-binding part of the configuration (package \<open>config\<close>).\<close>

record NavigationKeybinds =
  nav_Conversations :: string
  nav_Messages :: string
  nav_Input :: string

record GlobalKeybinds =
  gl_Quit :: string
  gl_NextPanel :: string
  gl_PrevPanel :: string
  gl_Help :: string
  gl_Refresh :: string

record KeybindConfig =
  LeaderKey :: string
  Navigation :: NavigationKeybinds
  Global :: GlobalKeybinds

record Config =
  Editor :: string
  EditorArgs :: "string list"
  Keybinds :: KeybindConfig

definition DefaultKeybinds :: KeybindConfig where
  "DefaultKeybinds = \<lparr>LeaderKey = ''ctrl+space'',
     Navigation = \<lparr>nav_Conversations = ''c'', nav_Messages = ''m'', nav_Input = ''i''\<rparr>,
     Global = \<lparr>gl_Quit = ''q'', gl_NextPanel = ''tab'', gl_PrevPanel = ''shift+tab'',
       gl_Help = ''?'', gl_Refresh = ''ctrl+r''\<rparr>\<rparr>"

datatype AppState = StateLoading | StateQRPairing | StateConnected | StateError

text \<open>\<open>FocusedPanel\<close> is a Go \<open>int\<close> with three named values.\<close>

type_synonym FocusedPanel = int

definition PanelContacts :: FocusedPanel where "PanelContacts = 0"
definition PanelMessages :: FocusedPanel where "PanelMessages = 1"
definition PanelInput :: FocusedPanel where "PanelInput = 2"

record AppKeyMap =
  km_Quit :: Binding
  km_Tab :: Binding
  km_ShiftTab :: Binding
  km_Help :: Binding
  km_Refresh :: Binding

definition KeyMapFromConfig :: "Config \<Rightarrow> AppKeyMap" where
  "KeyMapFromConfig c =
     (let kb = Keybinds c
      in \<lparr>km_Quit = [gl_Quit (Global kb), ''ctrl+c''],
          km_Tab = [gl_NextPanel (Global kb)],
          km_ShiftTab = [gl_PrevPanel (Global kb)],
          km_Help = [gl_Help (Global kb)],
          km_Refresh = [gl_Refresh (Global kb)]\<rparr>)"

text \<open>
  The fields of \<open>App\<close> that \<open>Update\<close> reads or writes. \<open>cancelled\<close> records that
  \<open>a.cancel()\<close> was called; the client, the store, the channel and the styles are
  not state of the event loop.
\<close>

record App =
  cfg :: Config
  keyMap :: AppKeyMap
  state :: AppState
  focusedPanel :: FocusedPanel
  err :: "string option"
  statusMsg :: string
  leaderKeyPressed :: bool
  width :: int
  height :: int
  contacts :: ContactsModel
  messages :: MessagesModel
  input :: InputModel
  activeConversationID :: string
  qrURL :: string
  cancelled :: bool

definition updateSizes :: "App \<Rightarrow> App" where
  "updateSizes a =
     (let contentHeight = height a - 2;
          contactsWidth = go_div (width a) 4;
          contactsWidth = (if contactsWidth < 20 then 20 else contactsWidth);
          messagesWidth = width a - contactsWidth - 4;
          messagesWidth = (if messagesWidth < 20 then 20 else messagesWidth);
          (contactsWidth, messagesWidth) =
            (if contactsWidth + messagesWidth + 4 > width a
             then (let contactsWidth = width a - messagesWidth - 4
                   in if contactsWidth < 15 then (15, width a - 15 - 4)
                      else (contactsWidth, messagesWidth))
             else (contactsWidth, messagesWidth));
          inputHeight = 3;
          messagesHeight = contentHeight - inputHeight - 2
      in a\<lparr>contacts := ContactsModel_SetSize contactsWidth (contentHeight - 2) (contacts a),
           messages := MessagesModel_SetSize messagesWidth messagesHeight (messages a),
           input := InputModel_SetWidth messagesWidth (input a)\<rparr>)"

definition unfocusAll :: "App \<Rightarrow> App" where
  "unfocusAll a =
     a\<lparr>contacts := ContactsModel_SetFocused False (contacts a),
       messages := MessagesModel_SetFocused False (messages a),
       input := InputModel_SetFocused False (input a)\<rparr>"

definition cycleFocus :: "int \<Rightarrow> App \<Rightarrow> App" where
  "cycleFocus direction a =
     (let a = unfocusAll a;
          numPanels = 3;
          a = a\<lparr>focusedPanel := go_mod (focusedPanel a + direction + numPanels) numPanels\<rparr>
      in if focusedPanel a = PanelContacts
         then a\<lparr>contacts := ContactsModel_SetFocused True (contacts a)\<rparr>
         else if focusedPanel a = PanelMessages
         then a\<lparr>messages := MessagesModel_SetFocused True (messages a)\<rparr>
         else if focusedPanel a = PanelInput
         then a\<lparr>input := InputModel_SetFocused True (input a)\<rparr>
         else a)"

definition focusPanel :: "FocusedPanel \<Rightarrow> App \<Rightarrow> App" where
  "focusPanel panel a =
     (let a = unfocusAll a;
          a = a\<lparr>focusedPanel := panel\<rparr>
      in if panel = PanelContacts
         then a\<lparr>contacts := ContactsModel_SetFocused True (contacts a), statusMsg := ''Conversations''\<rparr>
         else if panel = PanelMessages
         then a\<lparr>messages := MessagesModel_SetFocused True (messages a), statusMsg := ''Messages''\<rparr>
         else if panel = PanelInput
         then a\<lparr>input := InputModel_SetFocused True (input a), statusMsg := ''Input''\<rparr>
         else a)"

definition handleLeaderKey :: "KeyMsg \<Rightarrow> App \<Rightarrow> App \<times> Cmd option" where
  "handleLeaderKey msg a =
     (let kb = Keybinds (cfg a);
          keyStr = keyString msg
      in if keyStr = ''r'' then (a\<lparr>statusMsg := ''Refreshing...''\<rparr>, Some LoadConversationsCmd)
         else if keyStr = gl_Quit (Global kb) then (a\<lparr>cancelled := True\<rparr>, Some QuitCmd)
         else (a, None))"

definition matchesLeaderKey :: "KeyMsg \<Rightarrow> App \<Rightarrow> bool" where
  "matchesLeaderKey msg a =
     (let leaderKey = LeaderKey (Keybinds (cfg a));
          keyStr = keyString msg
      in if keyStr = leaderKey then True
         else if leaderKey = ''ctrl+space''
              \<and> (keyStr = ''ctrl+ '' \<or> keyStr = ''ctrl+@'' \<or> keyType msg = KeyCtrlAt
                 \<or> (length keyStr = 1 \<and> hd keyStr = CHR 0x00))
         then True
         else if length leaderKey > 5 \<and> take 5 leaderKey = ''ctrl+''
              \<and> keyAlt msg = False \<and> keyStr = ''ctrl+'' @ drop 5 leaderKey
         then True
         else False)"

definition handleLeaderNavigation :: "KeyMsg \<Rightarrow> App \<Rightarrow> App \<times> bool" where
  "handleLeaderNavigation msg a =
     (let kb = Keybinds (cfg a);
          keyStr = keyString msg
      in if keyStr = nav_Conversations (Navigation kb) then (focusPanel PanelContacts a, True)
         else if keyStr = nav_Messages (Navigation kb) then (focusPanel PanelMessages a, True)
         else if keyStr = nav_Input (Navigation kb) then (focusPanel PanelInput a, True)
         else (a, False))"

definition handleConnectedInput :: "Library \<Rightarrow> KeyMsg \<Rightarrow> App \<Rightarrow> App \<times> Cmd option" where
  "handleConnectedInput L msg a =
     (if focusedPanel a = PanelContacts \<and> keyString msg = ''enter''
      then (case SelectedConversation L (contacts a) of
              Some c \<Rightarrow> (a\<lparr>activeConversationID := ID c, statusMsg := ''Selected: '' @ Name c\<rparr>,
                         Some (LoadMessagesCmd (ID c)))
            | None \<Rightarrow> (a, None))
      else (a, None))"

definition handleClientEvent :: "Event \<Rightarrow> App \<Rightarrow> App \<times> Cmd option" where
  "handleClientEvent evt a =
     (case evType evt of
        EventTypeConnected \<Rightarrow> (a, Some ReturnConnectedMsg)
      | EventTypeDisconnected \<Rightarrow> (a\<lparr>statusMsg := ''Disconnected''\<rparr>, None)
      | EventTypeNewMessage \<Rightarrow>
          (case evMessage evt of
             Some m \<Rightarrow> (a\<lparr>messages := AddMessage m (messages a)\<rparr>, Some LoadConversationsCmd)
           | None \<Rightarrow> (a, None))
      | EventTypeConversationsUpdated \<Rightarrow> (a, Some LoadConversationsCmd)
      | EventTypeError \<Rightarrow>
          (case evError evt of
             Some e \<Rightarrow> (a\<lparr>statusMsg := ''Error: '' @ e\<rparr>, None)
           | None \<Rightarrow> (a, None))
      | _ \<Rightarrow> (a, None))"

text \<open>
  \<open>sendMessage\<close>: without an active conversation nothing is sent; the status line asks
  for a selection and the input component is told that sending failed.
\<close>

definition sendMessage :: "Library \<Rightarrow> string \<Rightarrow> App \<Rightarrow> App \<times> Cmd option" where
  "sendMessage L content a =
     (if activeConversationID a = []
      then (a\<lparr>statusMsg := ''Select a conversation first! (Enter in contacts)'',
              input := fst (InputModel_Update L MessageFailedNotifyMsg (input a))\<rparr>, None)
      else (a, Some (ClientSendMessageCmd (activeConversationID a) content)))"

text \<open>
  \<open>App.Update\<close> either returns from inside its first \<open>switch\<close> or falls through to the
  update of the focused component with the commands collected so far (\<open>nil\<close> commands
  are dropped by \<open>tea.Batch\<close>).
\<close>

datatype Flow = Return App "Cmd list" | Continue App "Cmd list"

definition optCmd :: "Cmd option \<Rightarrow> Cmd list" where
  "optCmd c = (case c of None \<Rightarrow> [] | Some x \<Rightarrow> [x])"

text \<open>The leader-chord part of the key branch (\<open>if a.leaderKeyPressed { ... }\<close>).\<close>

definition leaderChord :: "KeyMsg \<Rightarrow> App \<Rightarrow> Flow" where
  "leaderChord msg a =
     (if leaderKeyPressed a
      then
        (if keyString msg = ''esc''
         then Return (a\<lparr>leaderKeyPressed := False, statusMsg := []\<rparr>) []
         else
           (let a = a\<lparr>leaderKeyPressed := False\<rparr>
            in case handleLeaderKey msg a of
                 (a, Some cmd) \<Rightarrow> Return a [cmd]
               | (a, None) \<Rightarrow>
                   (case handleLeaderNavigation msg a of
                      (a, True) \<Rightarrow> Return a []
                    | (a, False) \<Rightarrow> Continue a [])))
      else Continue a [])"

text \<open>The rest of the key branch: leader key, global keys, state-specific input.\<close>

definition stateInput :: "Library \<Rightarrow> KeyMsg \<Rightarrow> App \<Rightarrow> Flow" where
  "stateInput L msg a =
     (case state a of
        StateConnected \<Rightarrow> (let (a, cmd) = handleConnectedInput L msg a in Continue a (optCmd cmd))
      | _ \<Rightarrow> Continue a [])"

definition normalKey :: "Library \<Rightarrow> KeyMsg \<Rightarrow> App \<Rightarrow> Flow" where
  "normalKey L msg a =
     (if matchesLeaderKey msg a
      then Return (a\<lparr>leaderKeyPressed := True, statusMsg := ''-- LEADER --''\<rparr>) []
      else if Matches msg (km_Quit (keyMap a))
      then (if focusedPanel a = PanelInput \<and> InputModel_Value (input a) \<noteq> []
            then stateInput L msg a
            else Return (a\<lparr>cancelled := True\<rparr>) [QuitCmd])
      else if Matches msg (km_Tab (keyMap a)) then Return (cycleFocus 1 a) []
      else if Matches msg (km_ShiftTab (keyMap a)) then Return (cycleFocus (- 1) a) []
      else stateInput L msg a)"

definition handleKeyMsg :: "Library \<Rightarrow> KeyMsg \<Rightarrow> App \<Rightarrow> Flow" where
  "handleKeyMsg L msg a =
     (case leaderChord msg a of
        Return a cmds \<Rightarrow> Return a cmds
      | Continue a cmds \<Rightarrow> normalKey L msg a)"

definition handleMsg :: "Library \<Rightarrow> Msg \<Rightarrow> App \<Rightarrow> Flow" where
  "handleMsg L msg a =
     (case msg of
        WindowSizeMsg w h \<Rightarrow> Continue (updateSizes (a\<lparr>width := w, height := h\<rparr>)) []
      | TeaKeyMsg k \<Rightarrow> handleKeyMsg L k a
      | ClientEvent evt \<Rightarrow> (let (a, cmd) = handleClientEvent evt a in Continue a (optCmd cmd))
      | SendMessageMsg content \<Rightarrow> (let (a, cmd) = sendMessage L content a in Continue a (optCmd cmd))
      | OpenEditorMsg initialContent \<Rightarrow> Return a [StartEditorCmd initialContent]
      | EditorResultMsg content e \<Rightarrow>
          (case e of
             Some er \<Rightarrow> Continue (a\<lparr>statusMsg := ''Editor error: '' @ er\<rparr>) []
           | None \<Rightarrow>
               Continue (a\<lparr>input := InputModel_SetFocused True (InputModel_SetValue L content (input a)),
                           contacts := ContactsModel_SetFocused False (contacts a),
                           messages := MessagesModel_SetFocused False (messages a),
                           focusedPanel := PanelInput,
                           statusMsg := ''Press Enter to send''\<rparr>) [])
      | EditorCancelledMsg \<Rightarrow> Continue (a\<lparr>statusMsg := ''Message cancelled''\<rparr>) []
      | conversationsLoadedMsg convs \<Rightarrow>
          Continue (a\<lparr>contacts := SetConversations convs (contacts a),
                      statusMsg := ''Loaded '' @ showNat (length convs) @ '' conversations''\<rparr>) []
      | messagesLoadedMsg cid msgs \<Rightarrow> Continue (a\<lparr>messages := SetMessages cid msgs (messages a)\<rparr>) []
      | messageSentMsg \<Rightarrow>
          (let a = a\<lparr>statusMsg := ''Message sent'',
                     input := fst (InputModel_Update L MessageSentNotifyMsg (input a))\<rparr>
           in Continue a (if activeConversationID a \<noteq> [] then [LoadMessagesCmd (activeConversationID a)]
                          else []))
      | qrCodeMsg url \<Rightarrow> Continue (a\<lparr>state := StateQRPairing, qrURL := url\<rparr>) [ListenForExternalMsgsCmd]
      | connectedMsg \<Rightarrow>
          Continue (a\<lparr>state := StateConnected, statusMsg := ''Connected'',
                      contacts := ContactsModel_SetFocused True (contacts a)\<rparr>)
            [LoadConversationsCmd, ListenForExternalMsgsCmd]
      | errorMsg e \<Rightarrow>
          (let a = a\<lparr>err := Some e, statusMsg := ''Error: '' @ e,
                     input := fst (InputModel_Update L MessageFailedNotifyMsg (input a))\<rparr>;
               a = (if state a \<noteq> StateConnected then a\<lparr>state := StateError\<rparr> else a)
           in Continue a [ListenForExternalMsgsCmd])
      | _ \<Rightarrow> Continue a [])"

text \<open>The second \<open>switch\<close>: the focused component sees the message too.\<close>

definition updateFocused :: "Library \<Rightarrow> Msg \<Rightarrow> App \<Rightarrow> Cmd list \<Rightarrow> App \<times> Cmd list" where
  "updateFocused L msg a cmds =
     (if focusedPanel a = PanelContacts then
        (let (c, cmd) = ContactsModel_Update msg (contacts a);
             a = a\<lparr>contacts := c\<rparr>;
             cmds = cmds @ optCmd cmd
         in case SelectedConversation L (contacts a) of
              Some cv \<Rightarrow> (a, cmds @ [LoadMessagesCmd (ID cv)])
            | None \<Rightarrow> (a, cmds))
      else if focusedPanel a = PanelMessages then
        (let (m, cmd) = MessagesModel_Update msg (messages a)
         in (a\<lparr>messages := m\<rparr>, cmds @ optCmd cmd))
      else if focusedPanel a = PanelInput then
        (let (i, cmd) = InputModel_Update L msg (input a)
         in (a\<lparr>input := i\<rparr>, cmds @ optCmd cmd))
      else (a, cmds))"

definition App_Update :: "Library \<Rightarrow> Msg \<Rightarrow> App \<Rightarrow> App \<times> Cmd list" where
  "App_Update L msg a =
     (case handleMsg L msg a of
        Return a cmds \<Rightarrow> (a, cmds)
      | Continue a cmds \<Rightarrow> updateFocused L msg a cmds)"


definition typeKeys :: "Library \<Rightarrow> KeyMsg list \<Rightarrow> InputModel \<Rightarrow> InputModel" where
  "typeKeys L ks m = foldl (\<lambda>m k. fst (InputModel_Update L (TeaKeyMsg k) m)) m ks"

section \<open>Notions and example states used to state the properties\<close>

text \<open>Example values for the concrete instances below.\<close>

definition exConv :: "string \<Rightarrow> string \<Rightarrow> int \<Rightarrow> Conversation" where
  "exConv i n t = \<lparr>ID = i, Name = n, LatestMessage = [], LatestTimestamp = t, Unread = False,
     IsGroup = False, Participants = [], AvatarURL = []\<rparr>"

definition exStore :: Store where
  "exStore = \<lparr>st_conversations =
       [''a'' \<mapsto> exConv ''a'' ''Ann'' 10, ''b'' \<mapsto> exConv ''b'' ''Bob'' 30, ''c'' \<mapsto> exConv ''c'' ''Cy'' 20],
     st_messages = Map.empty\<rparr>"

text \<open>
  Keys: a typed single-byte character, Enter and Escape, as bubbletea reports them (for a
  character of several bytes \<open>msg.String()\<close> has several bytes).
\<close>

definition runeKey :: "char \<Rightarrow> KeyMsg" where
  "runeKey c = \<lparr>keyType = KeyRunes, keyRunes = [c], keyAlt = False, keyString = [c]\<rparr>"

definition enterKey :: KeyMsg where
  "enterKey = \<lparr>keyType = KeyEnter, keyRunes = [], keyAlt = False, keyString = ''enter''\<rparr>"

definition escKey :: KeyMsg where
  "escKey = \<lparr>keyType = KeyEscape, keyRunes = [], keyAlt = False, keyString = ''esc''\<rparr>"

text \<open>
  Text of single-byte characters: every byte is below \<open>0x80\<close>, so bytes, runes and
  characters coincide.
\<close>

definition isASCII :: "string \<Rightarrow> bool" where
  "isASCII s = list_all (\<lambda>c. (of_char c :: nat) < 0x80) s"

text \<open>
  The runes of a string, each as its bytes (what ranging over a Go string visits).
\<close>

function splitRunes :: "string \<Rightarrow> string list" where
  "splitRunes s = (if s = [] then [] else take (runeSize s) s # splitRunes (drop (runeSize s) s))"
  by pat_completeness auto
termination
  by (relation "measure length") (simp_all add: runeSize_pos)

declare splitRunes.simps [simp del]

text \<open>
  An instance of the library parameters for the examples: a widget that ignores messages
  and stores values as they are, and the two string functions as they act on ASCII text
  (\<open>A\<close> to \<open>Z\<close> are lower-cased; tab, line feed, vertical tab, form feed, carriage return
  and space are trimmed). Bytes from \<open>0x80\<close> on are left alone, as \<open>strings.ToLower\<close> leaves
  text without upper-case letters.
\<close>

definition asciiSpace :: "char \<Rightarrow> bool" where
  "asciiSpace c = (c = CHR 0x09 \<or> c = CHR 0x0A \<or> c = CHR 0x0B \<or> c = CHR 0x0C \<or> c = CHR 0x0D \<or> c = CHR '' '')"

definition asciiTrimSpace :: "string \<Rightarrow> string" where
  "asciiTrimSpace s = rev (dropWhile asciiSpace (rev (dropWhile asciiSpace s)))"

definition asciiLowerChar :: "char \<Rightarrow> char" where
  "asciiLowerChar c = (let n = (of_char c :: nat) in if 65 \<le> n \<and> n \<le> 90 then char_of (n + 32) else c)"

definition asciiToLower :: "string \<Rightarrow> string" where
  "asciiToLower s = map asciiLowerChar s"

definition exLib :: Library where
  "exLib = \<lparr>tiUpdate = (\<lambda>msg t. (t, False)), tiSanitize = (\<lambda>s. s),
     strToLower = asciiToLower, strTrimSpace = asciiTrimSpace\<rparr>"

definition exInput :: "string \<Rightarrow> int \<Rightarrow> InputMode \<Rightarrow> InputModel" where
  "exInput v p md = \<lparr>textInput = \<lparr>ti_value = v, ti_pos = p, ti_focus = True, ti_Width = 50\<rparr>,
     draftContent = [], in_width = 58, in_focused = True, sending = False, mode = md,
     pendingAction = PendingNone, lastFindChar = CHR 0x00, lastFindDir = 0\<rparr>"

text \<open>
  Occurrences of a character: \<open>occursIn val c lo hi\<close> says that \<open>c\<close> stands at some index
  from \<open>lo\<close> to \<open>hi\<close>; the next (previous) occurrence after (before) \<open>pos\<close> is the nearest
  index beyond \<open>pos\<close> that holds \<open>c\<close>.
\<close>

definition occursIn :: "string \<Rightarrow> char \<Rightarrow> int \<Rightarrow> int \<Rightarrow> bool" where
  "occursIn val c lo hi = (\<exists>j \<in> set [lo..hi]. val ! nat j = c)"

definition nextOccurrence :: "string \<Rightarrow> char \<Rightarrow> int \<Rightarrow> int \<Rightarrow> bool" where
  "nextOccurrence val c pos i =
     (pos < i \<and> i < int (length val) \<and> val ! nat i = c \<and> \<not> occursIn val c (pos + 1) (i - 1))"

definition prevOccurrence :: "string \<Rightarrow> char \<Rightarrow> int \<Rightarrow> int \<Rightarrow> bool" where
  "prevOccurrence val c pos i =
     (0 \<le> i \<and> i < pos \<and> val ! nat i = c \<and> \<not> occursIn val c (i + 1) (pos - 1))"

text \<open>The outcome of a search: the cursor is on the nearest occurrence, or has not moved
  when there is none.\<close>

definition searchedForward :: "string \<Rightarrow> char \<Rightarrow> int \<Rightarrow> int \<Rightarrow> bool" where
  "searchedForward val c pos pos' =
     (if occursIn val c (pos + 1) (int (length val) - 1) then nextOccurrence val c pos pos'
      else pos' = pos)"

definition searchedBackward :: "string \<Rightarrow> char \<Rightarrow> int \<Rightarrow> int \<Rightarrow> bool" where
  "searchedBackward val c pos pos' =
     (if occursIn val c 0 (pos - 1) then prevOccurrence val c pos pos' else pos' = pos)"

text \<open>
  The editor is focused and in normal mode, no command is pending, and the cursor lies
  between 0 and the length of the text in bytes. The widget keeps the cursor between 0 and
  the number of runes, which is at most the number of bytes; \<open>cursorInRunes\<close> is that
  narrower range.
\<close>

definition normalReady :: "InputModel \<Rightarrow> bool" where
  "normalReady m =
     (in_focused m \<and> mode m = ModeNormal \<and> pendingAction m = PendingNone
      \<and> 0 \<le> ti_pos (textInput m)
      \<and> ti_pos (textInput m) \<le> int (length (ti_value (textInput m))))"

definition cursorInRunes :: "InputModel \<Rightarrow> bool" where
  "cursorInRunes m =
     (0 \<le> ti_pos (textInput m)
      \<and> ti_pos (textInput m) \<le> int (RuneCountInString (ti_value (textInput m))))"

definition pressKey :: "Library \<Rightarrow> KeyMsg \<Rightarrow> InputModel \<Rightarrow> InputModel" where
  "pressKey L k m = fst (InputModel_Update L (TeaKeyMsg k) m)"

text \<open>
  Sequences of motion keys: the one-key motions, and \<open>f\<close> or \<open>F\<close> followed by the key that
  is its argument; and the sequences of one-key motions only.
\<close>

definition simpleMotion :: "string \<Rightarrow> bool" where
  "simpleMotion k = (k \<in> {''h'', ''l'', ''w'', ''b'', ''e'', ''0'', ''$'', '';'', '',''})"

definition findMotion :: "string \<Rightarrow> bool" where
  "findMotion k = (k = ''f'' \<or> k = ''F'')"

fun motionKeys :: "KeyMsg list \<Rightarrow> bool" where
  "motionKeys [] = True"
| "motionKeys [k] = simpleMotion (keyString k)"
| "motionKeys (k # a # ks) =
     (if findMotion (keyString k) then motionKeys ks
      else simpleMotion (keyString k) \<and> motionKeys (a # ks))"

fun simpleMotionKeys :: "KeyMsg list \<Rightarrow> bool" where
  "simpleMotionKeys [] = True"
| "simpleMotionKeys (k # ks) = (simpleMotion (keyString k) \<and> simpleMotionKeys ks)"

text \<open>\<open>m'\<close> is \<open>m\<close>, or \<open>m\<close> after one \<open>SetCursor\<close>.\<close>

definition cursorMoved :: "InputModel \<Rightarrow> InputModel \<Rightarrow> bool" where
  "cursorMoved m m' = (m' = m \<or> (\<exists>p. m' = m\<lparr>textInput := ti_SetCursor p (textInput m)\<rparr>))"

text \<open>
  What motions leave as it is: the text, the readiness of the editor and the cursor's
  being within the runes, and on an empty text everything but the memory of the last
  search.
\<close>

definition motionEffect :: "InputModel \<Rightarrow> InputModel \<Rightarrow> bool" where
  "motionEffect m m' =
     (ti_value (textInput m') = ti_value (textInput m) \<and> normalReady m'
      \<and> (cursorInRunes m \<longrightarrow> cursorInRunes m')
      \<and> (ti_value (textInput m) = [] \<longrightarrow>
           m' = m\<lparr>lastFindChar := lastFindChar m', lastFindDir := lastFindDir m'\<rparr>))"

definition exMotions :: "KeyMsg list" where
  "exMotions = map runeKey [CHR ''w'', CHR ''f'', CHR ''l'', CHR ''$'', CHR ''l'', CHR ''b'',
     CHR ''F'', CHR ''h'', CHR '';'', CHR '','', CHR ''e'', CHR ''0'', CHR ''h'']"

definition exSimpleMotions :: "KeyMsg list" where
  "exSimpleMotions = map runeKey [CHR ''w'', CHR ''$'', CHR ''l'', CHR ''b'', CHR ''h'', CHR '';'',
     CHR '','', CHR ''e'', CHR ''0'']"

text \<open>A text with two-byte characters: e-acute twice, a space and \<open>a\<close>; four runes in
  six bytes of UTF-8.\<close>

definition exAccents :: string where
  "exAccents = [CHR 0xC3, CHR 0xA9, CHR 0xC3, CHR 0xA9, CHR '' '', CHR ''a'']"

text \<open>
  A query of one two-byte character (e-acute) and a name of three characters (a-tilde,
  \<open>a\<close>, the copyright sign) in which that character does not occur; neither has a letter
  with an upper-case form, so \<open>strings.ToLower\<close> leaves both as they are.
\<close>

definition exAcuteQuery :: string where
  "exAcuteQuery = [CHR 0xC3, CHR 0xA9]"

definition exTildeName :: string where
  "exTildeName = [CHR 0xC3, CHR 0xA3, CHR ''a'', CHR 0xC2, CHR 0xA9]"

text \<open>The invariant of the outer loop of the exchange sort: the first \<open>i\<close> positions hold
  their final elements, none of which has a greater element after it.\<close>

definition sortedUpTo :: "('a \<Rightarrow> 'a \<Rightarrow> bool) \<Rightarrow> nat \<Rightarrow> 'a list \<Rightarrow> bool" where
  "sortedUpTo gt i xs = (\<forall>a b. a < i \<and> a < b \<and> b < length xs \<longrightarrow> \<not> gt (xs ! b) (xs ! a))"

text \<open>More example states of the editor.\<close>

definition exFound :: InputModel where
  "exFound = (exInput ''cbc'' 2 ModeNormal)\<lparr>lastFindChar := CHR ''c'', lastFindDir := 1\<rparr>"

definition exDraft :: "string \<Rightarrow> string \<Rightarrow> InputMode \<Rightarrow> PendingAction \<Rightarrow> InputModel" where
  "exDraft d v md p = (exInput v 0 md)\<lparr>draftContent := d, pendingAction := p\<rparr>"

definition exMultiLine :: string where
  "exMultiLine = ''hi'' @ [CHR 0x0A] @ ''you''"

definition exContacts :: "Conversation list \<Rightarrow> bool \<Rightarrow> ContactsModel" where
  "exContacts cs f = \<lparr>ct_conversations = cs, ct_selected = 0, ct_offset = 0, ct_width = 20,
     ct_height = 20, ct_focused = f, ct_keyMap = DefaultContactsKeyMap, searchMode = False,
     searchQuery = [], ct_lastKeyWasG = False\<rparr>"

definition exMessages :: "bool \<Rightarrow> MessagesModel" where
  "exMessages f = \<lparr>ms_messages = [], ms_conversationID = [], ms_selected = 0, ms_offset = 0,
     ms_width = 56, ms_height = 15, ms_focused = f, ms_keyMap = DefaultMessagesKeyMap,
     ms_lastKeyWasG = False\<rparr>"

definition exConfig :: Config where
  "exConfig = \<lparr>Editor = ''nvim'', EditorArgs = [], Keybinds = DefaultKeybinds\<rparr>"

text \<open>A connected application with the given panel focused and the given editor.\<close>

definition exApp :: "FocusedPanel \<Rightarrow> InputModel \<Rightarrow> App" where
  "exApp p i = \<lparr>cfg = exConfig, keyMap = KeyMapFromConfig exConfig, state = StateConnected,
     focusedPanel = p, err = None, statusMsg = [], leaderKeyPressed = False, width = 80,
     height = 24, contacts = exContacts [] (p = PanelContacts), messages = exMessages (p = PanelMessages),
     input = i\<lparr>in_focused := (p = PanelInput)\<rparr>, activeConversationID = [], qrURL = [],
     cancelled = False\<rparr>"






text \<open>
  The keys that the chord handles while the leader is pending: escape, the two global
  commands (\<open>r\<close> and the quit key) and the three navigation keys.
\<close>

definition chordKey :: "KeyMsg \<Rightarrow> App \<Rightarrow> bool" where
  "chordKey k a =
     (keyString k = ''esc'' \<or> keyString k = ''r''
      \<or> keyString k = gl_Quit (Global (Keybinds (cfg a)))
      \<or> keyString k = nav_Conversations (Navigation (Keybinds (cfg a)))
      \<or> keyString k = nav_Messages (Navigation (Keybinds (cfg a)))
      \<or> keyString k = nav_Input (Navigation (Keybinds (cfg a))))"







text \<open>A conversation list in search mode.\<close>

definition exSearch :: "string \<Rightarrow> ContactsModel" where
  "exSearch q = (exContacts [exConv ''a'' ''Ann Lee'' 10, exConv ''b'' ''Bob'' 30,
      exConv ''c'' ''Al Bean'' 20, exConv ''d'' ''Cy'' 5] True)\<lparr>searchMode := True, searchQuery := q\<rparr>"

text \<open>A search for the query above in a list that holds only the name above.\<close>

definition exAccentSearch :: ContactsModel where
  "exAccentSearch = (exContacts [exConv ''x'' exTildeName 1] True)\<lparr>searchMode := True,
      searchQuery := exAcuteQuery\<rparr>"

section \<open>Properties of the exchange sort\<close>

lemma mset_sortInner: "i < length xs \<Longrightarrow> mset (sortInner gt i j xs) = mset xs"
proof (induction gt i j xs rule: sortInner.induct)
  case (1 gt i j xs)
  show ?case
  proof (cases "j < length xs")
    case True
    let ?xs' = "if gt (xs ! j) (xs ! i) then xs[i := xs ! j, j := xs ! i] else xs"
    have len: "i < length ?xs'" using "1.prems" by simp
    have "mset ?xs' = mset xs" using True "1.prems" by (simp add: mset_swap)
    moreover have "mset (sortInner gt i (j + 1) ?xs') = mset ?xs'"
      using "1.IH" [OF True len] .
    moreover have "sortInner gt i j xs = sortInner gt i (j + 1) ?xs'"
      using True by (subst sortInner.simps) simp
    ultimately show ?thesis by simp
  next
    case False
    then show ?thesis by (subst sortInner.simps) simp
  qed
qed

lemma mset_sortOuter: "mset (sortOuter gt i xs) = mset xs"
proof (induction gt i xs rule: sortOuter.induct)
  case (1 gt i xs)
  show ?case
  proof (cases "i + 1 < length xs")
    case True
    then have "sortOuter gt i xs = sortOuter gt (i + 1) (sortInner gt i (i + 1) xs)"
      by (subst sortOuter.simps) simp
    with "1.IH" [OF True] True show ?thesis by (simp add: mset_sortInner)
  next
    case False
    then show ?thesis by (subst sortOuter.simps) simp
  qed
qed

lemma sortInner_prefix: "k < i \<Longrightarrow> i < j \<Longrightarrow> sortInner gt i j xs ! k = xs ! k"
proof (induction gt i j xs rule: sortInner.induct)
  case (1 gt i j xs)
  show ?case
  proof (cases "j < length xs")
    case True
    let ?xs' = "if gt (xs ! j) (xs ! i) then xs[i := xs ! j, j := xs ! i] else xs"
    have "sortInner gt i j xs = sortInner gt i (j + 1) ?xs'"
      using True by (subst sortInner.simps) simp
    moreover have "sortInner gt i (j + 1) ?xs' ! k = ?xs' ! k"
      using "1.IH" [OF True] "1.prems" by simp
    moreover have "?xs' ! k = xs ! k" using "1.prems" by simp
    ultimately show ?thesis by simp
  next
    case False
    then show ?thesis by (subst sortInner.simps) simp
  qed
qed

lemma sortInner_tail:
  "i < j \<Longrightarrow> (\<forall>k. i \<le> k \<and> k < length xs \<longrightarrow> Q (xs ! k)) \<Longrightarrow>
   i \<le> k \<Longrightarrow> k < length xs \<Longrightarrow> Q (sortInner gt i j xs ! k)"
proof (induction gt i j xs rule: sortInner.induct)
  case (1 gt i j xs)
  show ?case
  proof (cases "j < length xs")
    case True
    let ?xs' = "if gt (xs ! j) (xs ! i) then xs[i := xs ! j, j := xs ! i] else xs"
    have eq: "sortInner gt i j xs = sortInner gt i (j + 1) ?xs'"
      using True by (subst sortInner.simps) simp
    have Q': "\<forall>k. i \<le> k \<and> k < length ?xs' \<longrightarrow> Q (?xs' ! k)"
      using "1.prems"(1,2) True by (auto simp: nth_list_update)
    have "Q (sortInner gt i (j + 1) ?xs' ! k)"
      using "1.IH" [OF True _ Q'] "1.prems" by simp
    with eq show ?thesis by simp
  next
    case False
    then show ?thesis using "1.prems" by (subst sortInner.simps) simp
  qed
qed

lemma sortInner_max:
  "(\<forall>a b. gt a b = (key b < (key a :: int))) \<Longrightarrow> i < j \<Longrightarrow>
   (\<forall>k. i < k \<and> k < j \<longrightarrow> \<not> gt (xs ! k) (xs ! i)) \<Longrightarrow>
   i < k \<Longrightarrow> k < length xs \<Longrightarrow>
   \<not> gt (sortInner gt i j xs ! k) (sortInner gt i j xs ! i)"
proof (induction gt i j xs rule: sortInner.induct)
  case (1 gt i j xs)
  note gt = "1.prems"(1)
  show ?case
  proof (cases "j < length xs")
    case True
    let ?xs' = "if gt (xs ! j) (xs ! i) then xs[i := xs ! j, j := xs ! i] else xs"
    have eq: "sortInner gt i j xs = sortInner gt i (j + 1) ?xs'"
      using True by (subst sortInner.simps) simp
    have inv: "\<forall>k. i < k \<and> k < j + 1 \<longrightarrow> \<not> gt (?xs' ! k) (?xs' ! i)"
    proof (intro allI impI)
      fix k assume k: "i < k \<and> k < j + 1"
      show "\<not> gt (?xs' ! k) (?xs' ! i)"
      proof (cases "gt (xs ! j) (xs ! i)")
        case swap: True
        have i: "?xs' ! i = xs ! j" using swap True "1.prems"(2) by simp
        show ?thesis
        proof (cases "k = j")
          case True
          then have "?xs' ! k = xs ! i" using swap \<open>j < length xs\<close> by simp
          with i swap gt show ?thesis by simp
        next
          case False
          then have "?xs' ! k = xs ! k" using swap k by simp
          moreover have "\<not> gt (xs ! k) (xs ! i)" using "1.prems"(3) k False by simp
          ultimately show ?thesis using i swap gt by simp
        qed
      next
        case noswap: False
        show ?thesis
        proof (cases "k = j")
          case True
          with noswap show ?thesis by simp
        next
          case False
          then show ?thesis using noswap "1.prems"(3) k by simp
        qed
      qed
    qed
    have l: "i < j + 1" using "1.prems"(2) by simp
    have kl: "k < length ?xs'" using "1.prems"(5) by simp
    have "\<not> gt (sortInner gt i (j + 1) ?xs' ! k) (sortInner gt i (j + 1) ?xs' ! i)"
      using "1.IH" [OF True gt l inv "1.prems"(4) kl] .
    with eq show ?thesis by simp
  next
    case False
    then have "sortInner gt i j xs = xs" by (subst sortInner.simps) simp
    moreover have "k < j" using False "1.prems" by simp
    ultimately show ?thesis using "1.prems"(3,4) by simp
  qed
qed

lemma sortOuter_sorted:
  "(\<forall>a b. gt a b = (key b < (key a :: int))) \<Longrightarrow> sortedUpTo gt i xs \<Longrightarrow>
   sortedUpTo gt (length xs) (sortOuter gt i xs)"
proof (induction gt i xs rule: sortOuter.induct)
  case (1 gt i xs)
  note gt = "1.prems"(1)
  show ?case
  proof (cases "i + 1 < length xs")
    case True
    let ?ys = "sortInner gt i (i + 1) xs"
    have eq: "sortOuter gt i xs = sortOuter gt (i + 1) ?ys"
      using True by (subst sortOuter.simps) simp
    have len: "length ?ys = length xs" by (rule length_sortInner)
    have inv: "sortedUpTo gt (i + 1) ?ys"
      unfolding sortedUpTo_def
    proof (intro allI impI)
      fix a b assume ab: "a < i + 1 \<and> a < b \<and> b < length ?ys"
      show "\<not> gt (?ys ! b) (?ys ! a)"
      proof (cases "a = i")
        case True
        have vac: "\<forall>k. i < k \<and> k < i + 1 \<longrightarrow> \<not> gt (xs ! k) (xs ! i)" by auto
        have "i < i + 1" "i < b" "b < length xs" using ab len True by simp_all
        then show ?thesis
          using sortInner_max [OF gt _ vac, of b] True by blast
      next
        case False
        then have a: "a < i" using ab by simp
        then have ya: "?ys ! a = xs ! a" by (simp add: sortInner_prefix)
        show ?thesis
        proof (cases "b < i")
          case True
          then have "?ys ! b = xs ! b" by (simp add: sortInner_prefix)
          with ya "1.prems"(2) a ab len show ?thesis by (simp add: sortedUpTo_def)
        next
          case False
          have "\<forall>k. i \<le> k \<and> k < length xs \<longrightarrow> \<not> gt (xs ! k) (xs ! a)"
            using "1.prems"(2) a by (simp add: sortedUpTo_def)
          then have "\<not> gt (?ys ! b) (xs ! a)"
            using sortInner_tail [of i "i + 1" xs "\<lambda>x. \<not> gt x (xs ! a)" b gt] False ab len
            by simp
          with ya show ?thesis by simp
        qed
      qed
    qed
    have "sortedUpTo gt (length ?ys) (sortOuter gt (i + 1) ?ys)"
      using "1.IH" [OF True gt inv] .
    with eq len show ?thesis by simp
  next
    case False
    then have "sortOuter gt i xs = xs" by (subst sortOuter.simps) simp
    moreover have "sortedUpTo gt (length xs) xs"
      using "1.prems"(2) False unfolding sortedUpTo_def by auto
    ultimately show ?thesis by simp
  qed
qed

lemma exchangeSort_sorted:
  assumes "\<forall>a b. gt a b = (key b < (key a :: int))"
  shows "sorted_wrt (\<lambda>a b. \<not> gt b a) (exchangeSort gt xs)"
proof -
  have "sortedUpTo gt 0 xs" by (simp add: sortedUpTo_def)
  then have "sortedUpTo gt (length xs) (sortOuter gt 0 xs)"
    using sortOuter_sorted [OF assms] by blast
  moreover have "length (sortOuter gt 0 xs) = length xs"
    using mset_sortOuter [of gt 0 xs] by (metis size_mset)
  ultimately show ?thesis
    by (simp add: exchangeSort_def sorted_wrt_iff_nth_less sortedUpTo_def)
qed

lemma mset_exchangeSort: "mset (exchangeSort gt xs) = mset xs"
  by (simp add: exchangeSort_def mset_sortOuter)

lemma mset_map_filter_dom:
  "set ks \<subseteq> dom m \<Longrightarrow> mset (List.map_filter m ks) = image_mset (\<lambda>k. the (m k)) (mset ks)"
  by (induction ks) (auto simp: List.map_filter_simps)


section \<open>Properties of the store\<close>

text \<open>
  C10. For every store and every order in which the map iteration visits the keys (each
  key of the cache exactly once), \<open>GetConversations\<close> returns the cached conversations,
  each once, and no conversation of the result has a latest-message timestamp strictly
  later than that of a conversation before it (newest first).
\<close>

theorem GetConversations_newest_first:
  assumes "distinct order" and "set order = dom (st_conversations s)"
  shows "mset (GetConversations order s)
           = image_mset (\<lambda>k. the (st_conversations s k)) (mset_set (dom (st_conversations s)))
         \<and> sorted_wrt (\<lambda>a b. \<not> After (LatestTimestamp b) (LatestTimestamp a))
             (GetConversations order s)"
proof -
  have "mset_set (dom (st_conversations s)) = mset order"
    using assms by (metis mset_set_set)
  moreover have "mset (GetConversations order s)
      = image_mset (\<lambda>k. the (st_conversations s k)) (mset order)"
    using assms(2) by (simp add: GetConversations_def mset_exchangeSort mset_map_filter_dom)
  moreover have "sorted_wrt (\<lambda>a b. \<not> After (LatestTimestamp b) (LatestTimestamp a))
             (GetConversations order s)"
    unfolding GetConversations_def
    using exchangeSort_sorted [of "\<lambda>a b. After (LatestTimestamp a) (LatestTimestamp b)" LatestTimestamp]
    by (simp add: After_def)
  ultimately show ?thesis by simp
qed

theorem GetConversations_newest_first_witness:
  "distinct [''a'', ''b'', ''c''] \<and> set [''a'', ''b'', ''c''] = dom (st_conversations exStore)
   \<and> map ID (GetConversations [''a'', ''b'', ''c''] exStore) = [''b'', ''c'', ''a'']
   \<and> sorted_wrt (\<lambda>a b. \<not> After (LatestTimestamp b) (LatestTimestamp a))
        (GetConversations [''a'', ''b'', ''c''] exStore)"
proof -
  have d: "distinct [''a'', ''b'', ''c'']" by simp
  have s: "set [''a'', ''b'', ''c''] = dom (st_conversations exStore)"
    by (auto simp: exStore_def)
  have v: "map ID (GetConversations [''a'', ''b'', ''c''] exStore) = [''b'', ''c'', ''a'']"
    by (simp add: GetConversations_def exchangeSort_def exStore_def exConv_def After_def
        List.map_filter_simps sortOuter.simps sortInner.simps)
  from GetConversations_newest_first [OF d s] d s v show ?thesis by blast
qed

section \<open>Properties of the modal editor\<close>

lemma RuneCountInString_Nil [simp]: "RuneCountInString [] = 0"
  by (subst RuneCountInString.simps) simp

lemma RuneCountInString_le: "RuneCountInString s \<le> length s"
proof (induction s rule: RuneCountInString.induct)
  case (1 s)
  show ?case
  proof (cases "s = []")
    case True
    then show ?thesis by simp
  next
    case False
    from runeSize_pos [OF False] have "length (drop (runeSize s) s) < length s"
      using False by simp
    with "1.IH" [OF False] have "RuneCountInString (drop (runeSize s) s) < length s" by simp
    with False show ?thesis by (subst RuneCountInString.simps) simp
  qed
qed

lemma RuneCountInString_ASCII: "isASCII s \<Longrightarrow> RuneCountInString s = length s"
proof (induction s)
  case Nil
  then show ?case by simp
next
  case (Cons c cs)
  then have c: "(of_char c :: nat) < 0x80" and cs: "isASCII cs" by (simp_all add: isASCII_def)
  from c have "runeSize (c # cs) = 1" by (simp add: runeSize_def)
  with Cons.IH [OF cs] show ?case by (subst RuneCountInString.simps) simp
qed

lemma ti_Reset_value: "ti_value (ti_Reset t) = []" "ti_pos (ti_Reset t) = 0"
  by (simp_all add: ti_Reset_def ti_SetCursor_def clamp_def)

text \<open>
  C5. In normal mode with no command pending, whatever the text and the cursor, the keys
  \<open>dd\<close> leave the text empty, and the keys \<open>cc\<close> leave the text empty and the editor in
  insert mode.
\<close>

theorem dd_cc_whole_line:
  assumes "in_focused m" and "mode m = ModeNormal" and "pendingAction m = PendingNone"
  shows "ti_Value (textInput (typeKeys L [runeKey CHR ''d'', runeKey CHR ''d''] m)) = []
       \<and> ti_Value (textInput (typeKeys L [runeKey CHR ''c'', runeKey CHR ''c''] m)) = []
       \<and> mode (typeKeys L [runeKey CHR ''c'', runeKey CHR ''c''] m) = ModeInsert"
  using assms
  by (simp add: typeKeys_def InputModel_Update_def handleNormalMode_def handleNormalKey_def
      handlePendingAction_def runeKey_def ti_Value_def ti_Reset_value enterInsert_def ti_Focus_def)

theorem dd_cc_whole_line_witness:
  "in_focused (exInput ''hello world'' 3 ModeNormal) \<and> mode (exInput ''hello world'' 3 ModeNormal) = ModeNormal
   \<and> pendingAction (exInput ''hello world'' 3 ModeNormal) = PendingNone
   \<and> ti_Value (textInput (exInput ''hello world'' 3 ModeNormal)) \<noteq> []
   \<and> ti_Value (textInput (typeKeys exLib [runeKey CHR ''d'', runeKey CHR ''d''] (exInput ''hello world'' 3 ModeNormal))) = []
   \<and> ti_Value (textInput (typeKeys exLib [runeKey CHR ''c'', runeKey CHR ''c''] (exInput ''hello world'' 3 ModeNormal))) = []
   \<and> mode (typeKeys exLib [runeKey CHR ''c'', runeKey CHR ''c''] (exInput ''hello world'' 3 ModeNormal)) = ModeInsert"
proof -
  have a: "in_focused (exInput ''hello world'' 3 ModeNormal)"
    "mode (exInput ''hello world'' 3 ModeNormal) = ModeNormal"
    "pendingAction (exInput ''hello world'' 3 ModeNormal) = PendingNone"
    "ti_Value (textInput (exInput ''hello world'' 3 ModeNormal)) \<noteq> []"
    by (simp_all add: exInput_def ti_Value_def)
  from dd_cc_whole_line [OF a(1-3), of exLib] a show ?thesis by simp
qed

lemma findForward_Some:
  "findForward val c i0 = Some i \<Longrightarrow>
     i0 \<le> i \<and> i < int (length val) \<and> val ! nat i = c \<and> \<not> occursIn val c i0 (i - 1)"
proof (induction val c i0 rule: findForward.induct)
  case (1 val c i0)
  show ?case
  proof (cases "i0 < int (length val)")
    case True
    show ?thesis
    proof (cases "val ! nat i0 = c")
      case hit: True
      with True "1.prems" have "i = i0" by (subst (asm) findForward.simps) simp
      with True hit show ?thesis by (simp add: occursIn_def)
    next
      case miss: False
      with True "1.prems" have "findForward val c (i0 + 1) = Some i"
        by (subst (asm) findForward.simps) simp
      from "1.IH" [OF True miss this]
      have ih: "i0 + 1 \<le> i" "i < int (length val)" "val ! nat i = c"
        "\<not> occursIn val c (i0 + 1) (i - 1)" by simp_all
      have "\<not> occursIn val c i0 (i - 1)"
      proof
        assume "occursIn val c i0 (i - 1)"
        then obtain j where j: "i0 \<le> j" "j \<le> i - 1" "val ! nat j = c"
          by (auto simp: occursIn_def)
        with miss have "j \<noteq> i0" by auto
        with j have "occursIn val c (i0 + 1) (i - 1)" by (auto simp: occursIn_def)
        with ih(4) show False by simp
      qed
      with ih show ?thesis by simp
    qed
  next
    case False
    with "1.prems" show ?thesis by (subst (asm) findForward.simps) simp
  qed
qed

lemma findForward_None:
  "findForward val c i0 = None \<Longrightarrow> \<not> occursIn val c i0 (int (length val) - 1)"
proof (induction val c i0 rule: findForward.induct)
  case (1 val c i0)
  show ?case
  proof (cases "i0 < int (length val)")
    case True
    show ?thesis
    proof (cases "val ! nat i0 = c")
      case hit: True
      with True "1.prems" show ?thesis by (subst (asm) findForward.simps) simp
    next
      case miss: False
      with True "1.prems" have "findForward val c (i0 + 1) = None"
        by (subst (asm) findForward.simps) simp
      from "1.IH" [OF True miss this]
      have ih: "\<not> occursIn val c (i0 + 1) (int (length val) - 1)" .
      show ?thesis
      proof
        assume "occursIn val c i0 (int (length val) - 1)"
        then obtain j where j: "i0 \<le> j" "j \<le> int (length val) - 1" "val ! nat j = c"
          by (auto simp: occursIn_def)
        with miss have "j \<noteq> i0" by auto
        with j have "occursIn val c (i0 + 1) (int (length val) - 1)" by (auto simp: occursIn_def)
        with ih show False by simp
      qed
    qed
  next
    case False
    then show ?thesis by (auto simp: occursIn_def)
  qed
qed

lemma findBackward_Some:
  "findBackward val c i0 = Some i \<Longrightarrow>
     0 \<le> i \<and> i \<le> i0 \<and> val ! nat i = c \<and> \<not> occursIn val c (i + 1) i0"
proof (induction val c i0 rule: findBackward.induct)
  case (1 val c i0)
  show ?case
  proof (cases "i0 \<ge> 0")
    case True
    show ?thesis
    proof (cases "val ! nat i0 = c")
      case hit: True
      with True "1.prems" have "i = i0" by (subst (asm) findBackward.simps) simp
      with True hit show ?thesis by (simp add: occursIn_def)
    next
      case miss: False
      with True "1.prems" have "findBackward val c (i0 - 1) = Some i"
        by (subst (asm) findBackward.simps) simp
      from "1.IH" [OF True miss this]
      have ih: "0 \<le> i" "i \<le> i0 - 1" "val ! nat i = c" "\<not> occursIn val c (i + 1) (i0 - 1)"
        by simp_all
      have "\<not> occursIn val c (i + 1) i0"
      proof
        assume "occursIn val c (i + 1) i0"
        then obtain j where j: "i + 1 \<le> j" "j \<le> i0" "val ! nat j = c"
          by (auto simp: occursIn_def)
        with miss have "j \<noteq> i0" by auto
        with j have "occursIn val c (i + 1) (i0 - 1)" by (auto simp: occursIn_def)
        with ih(4) show False by simp
      qed
      with ih show ?thesis by simp
    qed
  next
    case False
    with "1.prems" show ?thesis by (subst (asm) findBackward.simps) simp
  qed
qed

lemma findBackward_None:
  "findBackward val c i0 = None \<Longrightarrow> \<not> occursIn val c 0 i0"
proof (induction val c i0 rule: findBackward.induct)
  case (1 val c i0)
  show ?case
  proof (cases "i0 \<ge> 0")
    case True
    show ?thesis
    proof (cases "val ! nat i0 = c")
      case hit: True
      with True "1.prems" show ?thesis by (subst (asm) findBackward.simps) simp
    next
      case miss: False
      with True "1.prems" have "findBackward val c (i0 - 1) = None"
        by (subst (asm) findBackward.simps) simp
      from "1.IH" [OF True miss this]
      have ih: "\<not> occursIn val c 0 (i0 - 1)" .
      show ?thesis
      proof
        assume "occursIn val c 0 i0"
        then obtain j where j: "0 \<le> j" "j \<le> i0" "val ! nat j = c"
          by (auto simp: occursIn_def)
        with miss have "j \<noteq> i0" by auto
        with j have "occursIn val c 0 (i0 - 1)" by (auto simp: occursIn_def)
        with ih show False by simp
      qed
    qed
  next
    case False
    then show ?thesis by (auto simp: occursIn_def)
  qed
qed

lemma occursIn_mono: "occursIn val c lo hi \<Longrightarrow> hi \<le> hi' \<Longrightarrow> lo' \<le> lo \<Longrightarrow> occursIn val c lo' hi'"
  by (auto simp: occursIn_def)

lemma setCursorIfFound_forward:
  assumes "0 \<le> ti_pos (textInput m)"
    and "RuneCountInString (ti_value (textInput m)) = length (ti_value (textInput m))"
  shows "searchedForward (ti_value (textInput m)) c (ti_pos (textInput m))
     (ti_pos (textInput (setCursorIfFound
        (findForward (ti_value (textInput m)) c (ti_pos (textInput m) + 1)) m)))"
proof (cases "findForward (ti_value (textInput m)) c (ti_pos (textInput m) + 1)")
  case None
  from findForward_None [OF None] show ?thesis
    by (simp add: searchedForward_def setCursorIfFound_def None)
next
  case (Some i)
  from findForward_Some [OF Some]
  have i: "ti_pos (textInput m) + 1 \<le> i" "i < int (length (ti_value (textInput m)))"
    "ti_value (textInput m) ! nat i = c"
    "\<not> occursIn (ti_value (textInput m)) c (ti_pos (textInput m) + 1) (i - 1)" by simp_all
  have occ: "occursIn (ti_value (textInput m)) c (ti_pos (textInput m) + 1)
      (int (length (ti_value (textInput m))) - 1)"
    using i by (auto simp: occursIn_def)
  have "ti_pos (textInput (setCursorIfFound (Some i) m)) = i"
    using i assms by (simp add: setCursorIfFound_def ti_SetCursor_def clamp_def)
  with i occ show ?thesis by (simp add: searchedForward_def nextOccurrence_def Some)
qed

lemma setCursorIfFound_backward:
  assumes "ti_pos (textInput m) \<le> int (length (ti_value (textInput m)))"
    and "RuneCountInString (ti_value (textInput m)) = length (ti_value (textInput m))"
  shows "searchedBackward (ti_value (textInput m)) c (ti_pos (textInput m))
     (ti_pos (textInput (setCursorIfFound
        (findBackward (ti_value (textInput m)) c (ti_pos (textInput m) - 1)) m)))"
proof (cases "findBackward (ti_value (textInput m)) c (ti_pos (textInput m) - 1)")
  case None
  from findBackward_None [OF None] show ?thesis
    by (simp add: searchedBackward_def setCursorIfFound_def None)
next
  case (Some i)
  from findBackward_Some [OF Some]
  have i: "0 \<le> i" "i \<le> ti_pos (textInput m) - 1"
    "ti_value (textInput m) ! nat i = c"
    "\<not> occursIn (ti_value (textInput m)) c (i + 1) (ti_pos (textInput m) - 1)" by simp_all
  have occ: "occursIn (ti_value (textInput m)) c 0 (ti_pos (textInput m) - 1)"
    using i by (auto simp: occursIn_def)
  have "ti_pos (textInput (setCursorIfFound (Some i) m)) = i"
    using i assms by (simp add: setCursorIfFound_def ti_SetCursor_def clamp_def)
  with i occ show ?thesis by (simp add: searchedBackward_def prevOccurrence_def Some)
qed

lemma setCursorIfFound_other [simp]:
  "ti_value (textInput (setCursorIfFound r m)) = ti_value (textInput m)"
  "lastFindChar (setCursorIfFound r m) = lastFindChar m"
  "lastFindDir (setCursorIfFound r m) = lastFindDir m"
  "mode (setCursorIfFound r m) = mode m"
  "in_focused (setCursorIfFound r m) = in_focused m"
  "pendingAction (setCursorIfFound r m) = pendingAction m"
  "draftContent (setCursorIfFound r m) = draftContent m"
  "sending (setCursorIfFound r m) = sending m"
  by (simp_all add: setCursorIfFound_def ti_SetCursor_def split: option.splits)

lemma typeKeys_Nil [simp]: "typeKeys L [] m = m"
  by (simp add: typeKeys_def)

lemma typeKeys_Cons [simp]: "typeKeys L (k # ks) m = typeKeys L ks (pressKey L k m)"
  by (simp add: typeKeys_def pressKey_def)

lemma pendingAction_same [simp]:
  "pendingAction m = p \<Longrightarrow> m\<lparr>pendingAction := p\<rparr> = m"
  by (cases m) simp

lemma pressKey_find_arg:
  assumes "normalReady m" and "keyString k = ''f''"
  shows "pressKey L a (pressKey L k m) =
     (if keyString a = ''esc'' \<or> length (keyString a) \<noteq> 1 then m
      else setCursorIfFound
             (findForward (ti_value (textInput m)) (hd (keyString a)) (ti_pos (textInput m) + 1))
             (m\<lparr>lastFindChar := hd (keyString a), lastFindDir := 1\<rparr>))"
  using assms
  by (cases "findForward (ti_value (textInput m)) (hd (keyString a)) (ti_pos (textInput m) + 1)")
     (auto simp: normalReady_def pressKey_def InputModel_Update_def handleNormalMode_def
      handleNormalKey_def handlePendingAction_def ti_Value_def ti_Position_def setCursorIfFound_def
      Let_def)

lemma pressKey_Find_arg:
  assumes "normalReady m" and "keyString k = ''F''"
  shows "pressKey L a (pressKey L k m) =
     (if keyString a = ''esc'' \<or> length (keyString a) \<noteq> 1 then m
      else setCursorIfFound
             (findBackward (ti_value (textInput m)) (hd (keyString a)) (ti_pos (textInput m) - 1))
             (m\<lparr>lastFindChar := hd (keyString a), lastFindDir := - 1\<rparr>))"
  using assms
  by (cases "findBackward (ti_value (textInput m)) (hd (keyString a)) (ti_pos (textInput m) - 1)")
     (auto simp: normalReady_def pressKey_def InputModel_Update_def handleNormalMode_def
      handleNormalKey_def handlePendingAction_def ti_Value_def ti_Position_def setCursorIfFound_def
      Let_def)

lemma pressKey_semicolon:
  assumes "normalReady m" and "keyString k = '';''"
  shows "pressKey L k m =
     (if lastFindChar m = CHR 0x00 then m
      else if lastFindDir m > 0
      then setCursorIfFound
             (findForward (ti_value (textInput m)) (lastFindChar m) (ti_pos (textInput m) + 1)) m
      else setCursorIfFound
             (findBackward (ti_value (textInput m)) (lastFindChar m) (ti_pos (textInput m) - 1)) m)"
  using assms
  by (simp add: normalReady_def pressKey_def InputModel_Update_def handleNormalMode_def
      handleNormalKey_def repeatFind_def ti_Value_def ti_Position_def)

lemma pressKey_comma:
  assumes "normalReady m" and "keyString k = '',''"
  shows "pressKey L k m =
     (if lastFindChar m = CHR 0x00 then m
      else if lastFindDir m < 0
      then setCursorIfFound
             (findForward (ti_value (textInput m)) (lastFindChar m) (ti_pos (textInput m) + 1)) m
      else setCursorIfFound
             (findBackward (ti_value (textInput m)) (lastFindChar m) (ti_pos (textInput m) - 1)) m)"
  using assms
  by (simp add: normalReady_def pressKey_def InputModel_Update_def handleNormalMode_def
      handleNormalKey_def repeatFind_def ti_Value_def ti_Position_def)

lemma ti_SetCursor_bounds:
  "0 \<le> ti_pos (ti_SetCursor p t)"
  "ti_pos (ti_SetCursor p t) \<le> int (RuneCountInString (ti_value t))"
  "ti_pos (ti_SetCursor p t) \<le> int (length (ti_value t))"
  "ti_value (ti_SetCursor p t) = ti_value t"
  using RuneCountInString_le [of "ti_value t"]
  by (simp_all add: ti_SetCursor_def clamp_def)

lemma cursorMoved_refl: "cursorMoved m m"
  by (simp add: cursorMoved_def)

lemma cursorMoved_SetCursor: "cursorMoved m (m\<lparr>textInput := ti_SetCursor p (textInput m)\<rparr>)"
  unfolding cursorMoved_def by blast

lemma cursorMoved_setCursorIfFound: "cursorMoved m (setCursorIfFound r m)"
  by (cases r) (simp_all add: setCursorIfFound_def cursorMoved_refl cursorMoved_SetCursor)

lemma pressKey_simple:
  assumes "normalReady m" and "simpleMotion (keyString k)"
  shows "cursorMoved m (pressKey L k m)"
proof -
  from assms(1) have n: "in_focused m" "mode m = ModeNormal" "pendingAction m = PendingNone"
    by (simp_all add: normalReady_def)
  note unf = pressKey_def InputModel_Update_def handleNormalMode_def handleNormalKey_def
  from assms(2) consider "keyString k = ''h''" | "keyString k = ''l''" | "keyString k = ''w''"
    | "keyString k = ''b''" | "keyString k = ''e''" | "keyString k = ''0''" | "keyString k = ''$''"
    | "keyString k = '';''" | "keyString k = '',''"
    by (auto simp: simpleMotion_def)
  then show ?thesis
  proof cases
    case 1
    then show ?thesis using n assms(1)
      by (simp add: unf Let_def cursorMoved_refl cursorMoved_SetCursor)
  next
    case 2
    then show ?thesis using n assms(1)
      by (simp add: unf Let_def cursorMoved_refl cursorMoved_SetCursor)
  next
    case 3
    then show ?thesis using n
      by (simp add: unf moveToNextWord_def Let_def cursorMoved_SetCursor)
  next
    case 4
    then show ?thesis using n
      by (simp add: unf moveToPrevWord_def Let_def cursorMoved_SetCursor)
  next
    case 5
    then show ?thesis using n
      by (simp add: unf moveToEndOfWord_def Let_def cursorMoved_SetCursor)
  next
    case 6
    then show ?thesis using n by (simp add: unf cursorMoved_SetCursor)
  next
    case 7
    then show ?thesis using n by (simp add: unf cursorMoved_SetCursor)
  next
    case 8
    then show ?thesis using assms(1)
      by (simp add: pressKey_semicolon cursorMoved_refl cursorMoved_setCursorIfFound)
  next
    case 9
    then show ?thesis using assms(1)
      by (simp add: pressKey_comma cursorMoved_refl cursorMoved_setCursorIfFound)
  qed
qed

lemma cursorMoved_normalReady: "normalReady m \<Longrightarrow> cursorMoved m m' \<Longrightarrow> normalReady m'"
  by (auto simp: cursorMoved_def normalReady_def ti_SetCursor_bounds)

lemma cursorMoved_runes: "cursorInRunes m \<Longrightarrow> cursorMoved m m' \<Longrightarrow> cursorInRunes m'"
  by (auto simp: cursorMoved_def cursorInRunes_def ti_SetCursor_bounds)

lemma cursorMoved_value: "cursorMoved m m' \<Longrightarrow> ti_value (textInput m') = ti_value (textInput m)"
  by (auto simp: cursorMoved_def ti_SetCursor_def)

lemma cursorMoved_empty:
  "normalReady m \<Longrightarrow> cursorMoved m m' \<Longrightarrow> ti_value (textInput m) = [] \<Longrightarrow> m' = m"
proof -
  assume a: "normalReady m" "cursorMoved m m'" "ti_value (textInput m) = []"
  from a have z: "ti_pos (textInput m) = 0" by (simp add: normalReady_def)
  have s: "ti_SetCursor p (textInput m) = textInput m" for p
    using a(3) z by (cases "textInput m") (simp add: ti_SetCursor_def clamp_def)
  from a(2) show ?thesis by (auto simp: cursorMoved_def s)
qed

lemma pressKey_find_ready:
  assumes "normalReady m" and "findMotion (keyString k)"
  shows "normalReady (pressKey L a (pressKey L k m)) \<and> motionEffect m (pressKey L a (pressKey L k m))"
proof -
  let ?m1 = "\<lambda>d. m\<lparr>lastFindChar := hd (keyString a), lastFindDir := d\<rparr>"
  have r1: "normalReady (?m1 d)" for d using assms(1) by (simp add: normalReady_def)
  have me: "motionEffect m m'" if cm: "cursorMoved (?m1 d) m'" for d m'
  proof -
    have "normalReady m'" using cursorMoved_normalReady [OF r1 cm] .
    moreover have "ti_value (textInput m') = ti_value (textInput m)"
      using cursorMoved_value [OF cm] by simp
    moreover have "cursorInRunes m'" if "cursorInRunes m"
    proof -
      from that have "cursorInRunes (?m1 d)" by (simp add: cursorInRunes_def)
      then show ?thesis using cm by (rule cursorMoved_runes)
    qed
    moreover have "m' = m\<lparr>lastFindChar := lastFindChar m', lastFindDir := lastFindDir m'\<rparr>"
      if "ti_value (textInput m) = []"
    proof -
      from that have "ti_value (textInput (?m1 d)) = []" by simp
      from cursorMoved_empty [OF r1 cm this] show ?thesis by simp
    qed
    ultimately show ?thesis by (simp add: motionEffect_def)
  qed
  have cm: "cursorMoved (?m1 d) (setCursorIfFound r (?m1 d))" for d r
    by (rule cursorMoved_setCursorIfFound)
  have nr: "normalReady (setCursorIfFound r (?m1 d))" for d r
    using cursorMoved_normalReady [OF r1 cm] .
  have me0: "motionEffect m m" using assms(1) by (simp add: motionEffect_def)
  from assms(2) consider "keyString k = ''f''" | "keyString k = ''F''"
    by (auto simp: findMotion_def)
  then show ?thesis
  proof cases
    case 1
    show ?thesis
      using assms(1) me0 me [OF cm] nr
      by (simp add: pressKey_find_arg [OF assms(1) 1])
  next
    case 2
    show ?thesis
      using assms(1) me0 me [OF cm] nr
      by (simp add: pressKey_Find_arg [OF assms(1) 2])
  qed
qed

lemma pressKey_simple_ready:
  assumes "normalReady m" and "simpleMotion (keyString k)"
  shows "normalReady (pressKey L k m) \<and> motionEffect m (pressKey L k m)"
proof -
  note cm = pressKey_simple [OF assms, of L]
  have r: "normalReady (pressKey L k m)" using cursorMoved_normalReady [OF assms(1) cm] .
  have e: "pressKey L k m = m" if "ti_value (textInput m) = []"
    using cursorMoved_empty [OF assms(1) cm that] .
  have c: "cursorInRunes (pressKey L k m)" if "cursorInRunes m"
    using that cm by (rule cursorMoved_runes)
  from r cursorMoved_value [OF cm] c e show ?thesis
    by (simp add: motionEffect_def)
qed

lemma motionEffect_trans:
  assumes "motionEffect m m'" and "motionEffect m' m''"
  shows "motionEffect m m''"
proof -
  from assms have v: "ti_value (textInput m') = ti_value (textInput m)"
    "ti_value (textInput m'') = ti_value (textInput m)" and r: "normalReady m''"
    and c: "cursorInRunes m \<longrightarrow> cursorInRunes m''"
    by (simp_all add: motionEffect_def)
  have "m'' = m\<lparr>lastFindChar := lastFindChar m'', lastFindDir := lastFindDir m''\<rparr>"
    if e: "ti_value (textInput m) = []"
  proof -
    from assms(1) e have 1: "m' = m\<lparr>lastFindChar := lastFindChar m', lastFindDir := lastFindDir m'\<rparr>"
      by (simp add: motionEffect_def)
    from assms(2) e v have 2: "m'' = m'\<lparr>lastFindChar := lastFindChar m'', lastFindDir := lastFindDir m''\<rparr>"
      by (simp add: motionEffect_def)
    have "m'\<lparr>lastFindChar := x, lastFindDir := y\<rparr> = m\<lparr>lastFindChar := x, lastFindDir := y\<rparr>" for x y
      by (subst 1) simp
    with 2 show ?thesis by simp
  qed
  with v r c show ?thesis by (simp add: motionEffect_def)
qed

lemma motionEffect_refl: "normalReady m \<Longrightarrow> motionEffect m m"
  by (simp add: motionEffect_def)

lemma motions_effect:
  "motionKeys ks \<Longrightarrow> normalReady m \<Longrightarrow> motionEffect m (typeKeys L ks m)"
proof (induction ks arbitrary: m rule: motionKeys.induct)
  case 1
  then show ?case by (simp add: motionEffect_refl)
next
  case (2 k)
  then show ?case
    using pressKey_simple_ready [of m k L] by simp
next
  case (3 k a ks)
  show ?case
  proof (cases "findMotion (keyString k)")
    case True
    from pressKey_find_ready [OF "3.prems"(2) True, of L a]
    have r: "normalReady (pressKey L a (pressKey L k m))"
      and e: "motionEffect m (pressKey L a (pressKey L k m))" by simp_all
    from "3.prems"(1) True have "motionKeys ks" by simp
    from motionEffect_trans [OF e "3.IH"(1) [OF True this r]] show ?thesis by simp
  next
    case False
    with "3.prems"(1) have s: "simpleMotion (keyString k)" and ks: "motionKeys (a # ks)" by simp_all
    from pressKey_simple_ready [OF "3.prems"(2) s, of L]
    have r: "normalReady (pressKey L k m)" and e: "motionEffect m (pressKey L k m)" by simp_all
    from motionEffect_trans [OF e "3.IH"(2) [OF False ks r]] show ?thesis by simp
  qed
qed

lemma simple_motions_empty:
  "simpleMotionKeys ks \<Longrightarrow> normalReady m \<Longrightarrow> ti_value (textInput m) = [] \<Longrightarrow> typeKeys L ks m = m"
proof (induction ks)
  case Nil
  then show ?case by simp
next
  case (Cons k ks)
  from Cons.prems(1) have s: "simpleMotion (keyString k)" and ks: "simpleMotionKeys ks" by simp_all
  have "pressKey L k m = m"
    using cursorMoved_empty [OF Cons.prems(2) pressKey_simple [OF Cons.prems(2) s, of L] Cons.prems(3)] .
  with Cons.IH [OF ks Cons.prems(2,3)] show ?case by simp
qed

lemma findForward_Nil: "0 \<le> i \<Longrightarrow> findForward [] c i = None"
  by (subst findForward.simps) simp

lemma findBackward_neg: "i < 0 \<Longrightarrow> findBackward val c i = None"
  by (subst findBackward.simps) simp

lemma find_empty:
  assumes "normalReady m" and "ti_value (textInput m) = []"
  shows "typeKeys L [runeKey CHR ''f'', runeKey c] m = m\<lparr>lastFindChar := c, lastFindDir := 1\<rparr>"
    and "typeKeys L [runeKey CHR ''F'', runeKey c] m = m\<lparr>lastFindChar := c, lastFindDir := - 1\<rparr>"
proof -
  from assms have z: "ti_pos (textInput m) = 0" by (simp add: normalReady_def)
  show "typeKeys L [runeKey CHR ''f'', runeKey c] m = m\<lparr>lastFindChar := c, lastFindDir := 1\<rparr>"
    using pressKey_find_arg [OF assms(1), of "runeKey CHR ''f''" L "runeKey c"]
    by (simp add: runeKey_def assms(2) z findForward_Nil setCursorIfFound_def)
  show "typeKeys L [runeKey CHR ''F'', runeKey c] m = m\<lparr>lastFindChar := c, lastFindDir := - 1\<rparr>"
    using pressKey_Find_arg [OF assms(1), of "runeKey CHR ''F''" L "runeKey c"]
    by (simp add: runeKey_def assms(2) z findBackward_neg setCursorIfFound_def)
qed

text \<open>
  C4 (as the code has it). From normal mode with no command pending and the cursor in
  \<open>[0, len(text)]\<close>, every sequence of motion keys (\<open>h l w b e 0 $ ; ,\<close> and \<open>f\<close>/\<open>F\<close>
  followed by their argument) leaves the cursor in \<open>[0, len(text)]\<close>, with the length
  counted in bytes and, when the cursor started within the number of runes (where the
  widget keeps it), also counted in runes; the text is unchanged and the editor is again
  in normal mode with no command pending. On an empty text the one-key motions change
  nothing at all, while \<open>f c\<close> and \<open>F c\<close> record \<open>c\<close> and their direction as the last search,
  so a sequence of motions changes nothing but the remembered character and direction.
\<close>

theorem motions_keep_cursor_in_bounds:
  assumes "normalReady m" and "motionKeys ks"
  shows "0 \<le> ti_pos (textInput (typeKeys L ks m))
       \<and> ti_pos (textInput (typeKeys L ks m)) \<le> int (length (ti_value (textInput (typeKeys L ks m))))
       \<and> (ti_pos (textInput m) \<le> int (RuneCountInString (ti_value (textInput m))) \<longrightarrow>
            ti_pos (textInput (typeKeys L ks m))
              \<le> int (RuneCountInString (ti_value (textInput (typeKeys L ks m)))))
       \<and> ti_value (textInput (typeKeys L ks m)) = ti_value (textInput m)
       \<and> normalReady (typeKeys L ks m)
       \<and> (ti_value (textInput m) = [] \<longrightarrow>
            typeKeys L ks m = m\<lparr>lastFindChar := lastFindChar (typeKeys L ks m),
                                 lastFindDir := lastFindDir (typeKeys L ks m)\<rparr>
            \<and> (simpleMotionKeys ks \<longrightarrow> typeKeys L ks m = m)
            \<and> typeKeys L [runeKey CHR ''f'', runeKey c] m = m\<lparr>lastFindChar := c, lastFindDir := 1\<rparr>
            \<and> typeKeys L [runeKey CHR ''F'', runeKey c] m = m\<lparr>lastFindChar := c, lastFindDir := - 1\<rparr>)"
proof -
  let ?m' = "typeKeys L ks m"
  note e = motions_effect [OF assms(2) assms(1), of L]
  from e have r: "normalReady ?m'" and v: "ti_value (textInput ?m') = ti_value (textInput m)"
    by (simp_all add: motionEffect_def)
  from r have b: "0 \<le> ti_pos (textInput ?m')"
    "ti_pos (textInput ?m') \<le> int (length (ti_value (textInput ?m')))"
    by (simp_all add: normalReady_def)
  from assms(1) have p0: "0 \<le> ti_pos (textInput m)" by (simp add: normalReady_def)
  have c: "ti_pos (textInput m) \<le> int (RuneCountInString (ti_value (textInput m))) \<longrightarrow>
      ti_pos (textInput ?m') \<le> int (RuneCountInString (ti_value (textInput ?m')))"
  proof
    assume "ti_pos (textInput m) \<le> int (RuneCountInString (ti_value (textInput m)))"
    with p0 have "cursorInRunes m" by (simp add: cursorInRunes_def)
    with e have "cursorInRunes ?m'" by (simp add: motionEffect_def)
    then show "ti_pos (textInput ?m') \<le> int (RuneCountInString (ti_value (textInput ?m')))"
      by (simp add: cursorInRunes_def)
  qed
  have n: "ti_value (textInput m) = [] \<longrightarrow>
      ?m' = m\<lparr>lastFindChar := lastFindChar ?m', lastFindDir := lastFindDir ?m'\<rparr>"
    using e by (simp add: motionEffect_def)
  have s: "ti_value (textInput m) = [] \<longrightarrow> (simpleMotionKeys ks \<longrightarrow> ?m' = m)"
    using simple_motions_empty [OF _ assms(1), of ks L] by simp
  have f: "ti_value (textInput m) = [] \<longrightarrow>
      typeKeys L [runeKey CHR ''f'', runeKey c] m = m\<lparr>lastFindChar := c, lastFindDir := 1\<rparr>
      \<and> typeKeys L [runeKey CHR ''F'', runeKey c] m = m\<lparr>lastFindChar := c, lastFindDir := - 1\<rparr>"
    using find_empty [OF assms(1), of L c] by simp
  from b c v r n s f show ?thesis by blast
qed

theorem motions_keep_cursor_in_bounds_witness:
  "normalReady (exInput ''hello world'' 3 ModeNormal) \<and> motionKeys exMotions
   \<and> 0 \<le> ti_pos (textInput (typeKeys exLib exMotions (exInput ''hello world'' 3 ModeNormal)))
   \<and> ti_pos (textInput (typeKeys exLib exMotions (exInput ''hello world'' 3 ModeNormal))) \<le> 11
   \<and> normalReady (exInput exAccents 2 ModeNormal)
   \<and> RuneCountInString exAccents = 4
   \<and> ti_pos (textInput (typeKeys exLib exMotions (exInput exAccents 2 ModeNormal))) \<le> 4
   \<and> normalReady (exInput [] 0 ModeNormal)
   \<and> ti_value (textInput (exInput [] 0 ModeNormal)) = []
   \<and> simpleMotionKeys exSimpleMotions \<and> motionKeys exSimpleMotions
   \<and> typeKeys exLib exSimpleMotions (exInput [] 0 ModeNormal) = exInput [] 0 ModeNormal
   \<and> typeKeys exLib [runeKey CHR ''f'', runeKey CHR ''x''] (exInput [] 0 ModeNormal)
        = (exInput [] 0 ModeNormal)\<lparr>lastFindChar := CHR ''x'', lastFindDir := 1\<rparr>"
proof -
  let ?h = "exInput ''hello world'' 3 ModeNormal"
  let ?a = "exInput exAccents 2 ModeNormal"
  let ?e = "exInput [] 0 ModeNormal"
  have r1: "normalReady ?h" and r2: "normalReady ?e" and r3: "normalReady ?a"
    and e: "ti_value (textInput ?e) = []"
    and v: "ti_value (textInput ?h) = ''hello world''"
    and va: "ti_value (textInput ?a) = exAccents" "ti_pos (textInput ?a) = 2"
    by (simp_all add: normalReady_def exInput_def exAccents_def)
  have k: "motionKeys exMotions"
    by (simp add: exMotions_def runeKey_def findMotion_def simpleMotion_def)
  have ks: "simpleMotionKeys exSimpleMotions" "motionKeys exSimpleMotions"
    by (simp_all add: exSimpleMotions_def runeKey_def findMotion_def simpleMotion_def)
  have rc: "RuneCountInString exAccents = 4" by code_simp
  note w1 = motions_keep_cursor_in_bounds [OF r1 k, of exLib "CHR ''x''"]
  note w2 = motions_keep_cursor_in_bounds [OF r2 ks(2), of exLib "CHR ''x''"]
  note w3 = motions_keep_cursor_in_bounds [OF r3 k, of exLib "CHR ''x''"]
  have "ti_value (textInput (typeKeys exLib exMotions ?h)) = ''hello world''"
    using w1 v by simp
  moreover have "ti_pos (textInput (typeKeys exLib exMotions ?h))
      \<le> int (length (ti_value (textInput (typeKeys exLib exMotions ?h))))"
    using w1 by blast
  ultimately have h1: "ti_pos (textInput (typeKeys exLib exMotions ?h)) \<le> 11"
    by simp
  have h0: "0 \<le> ti_pos (textInput (typeKeys exLib exMotions ?h))"
    using w1 by blast
  from w3 have x: "ti_value (textInput (typeKeys exLib exMotions ?a)) = ti_value (textInput ?a)"
    by blast
  from w3 have y: "ti_pos (textInput ?a) \<le> int (RuneCountInString (ti_value (textInput ?a))) \<longrightarrow>
      ti_pos (textInput (typeKeys exLib exMotions ?a))
        \<le> int (RuneCountInString (ti_value (textInput (typeKeys exLib exMotions ?a))))"
    by blast
  have "ti_pos (textInput ?a) \<le> int (RuneCountInString (ti_value (textInput ?a)))"
    by (simp add: va rc)
  with y have "ti_pos (textInput (typeKeys exLib exMotions ?a))
        \<le> int (RuneCountInString (ti_value (textInput (typeKeys exLib exMotions ?a))))"
    by blast
  then have a1: "ti_pos (textInput (typeKeys exLib exMotions ?a)) \<le> 4"
    by (simp add: x va rc)
  have n1: "typeKeys exLib exSimpleMotions ?e = ?e"
    using w2 e ks(1) by blast
  have n2: "typeKeys exLib [runeKey CHR ''f'', runeKey CHR ''x''] ?e
        = ?e\<lparr>lastFindChar := CHR ''x'', lastFindDir := 1\<rparr>"
    using w2 e by blast
  from r1 k h0 h1 r3 rc a1 r2 e ks n1 n2 show ?thesis by blast
qed

text \<open>
  C4 as stated fails in its last part: on the empty text the motion \<open>f x\<close> is not a no-op,
  it replaces the remembered character (none before) by \<open>x\<close> and the remembered direction
  by forward.
\<close>

theorem find_on_empty_text_changes_memory_counterexample:
  "normalReady (exInput [] 0 ModeNormal)
   \<and> motionKeys [runeKey CHR ''f'', runeKey CHR ''x'']
   \<and> ti_value (textInput (exInput [] 0 ModeNormal)) = []
   \<and> lastFindChar (exInput [] 0 ModeNormal) = CHR 0x00
   \<and> lastFindDir (exInput [] 0 ModeNormal) = 0
   \<and> lastFindChar (typeKeys exLib [runeKey CHR ''f'', runeKey CHR ''x''] (exInput [] 0 ModeNormal)) = CHR ''x''
   \<and> lastFindDir (typeKeys exLib [runeKey CHR ''f'', runeKey CHR ''x''] (exInput [] 0 ModeNormal)) = 1
   \<and> typeKeys exLib [runeKey CHR ''f'', runeKey CHR ''x''] (exInput [] 0 ModeNormal)
        \<noteq> exInput [] 0 ModeNormal"
proof -
  have a: "normalReady (exInput [] 0 ModeNormal)"
    "motionKeys [runeKey CHR ''f'', runeKey CHR ''x'']"
    "ti_value (textInput (exInput [] 0 ModeNormal)) = []"
    "lastFindChar (exInput [] 0 ModeNormal) = CHR 0x00"
    "lastFindDir (exInput [] 0 ModeNormal) = 0"
    by (simp_all add: normalReady_def exInput_def runeKey_def findMotion_def)
  have b: "lastFindChar (typeKeys exLib [runeKey CHR ''f'', runeKey CHR ''x''] (exInput [] 0 ModeNormal)) = CHR ''x''"
    "lastFindDir (typeKeys exLib [runeKey CHR ''f'', runeKey CHR ''x''] (exInput [] 0 ModeNormal)) = 1"
    by code_simp+
  from b(1) a(4) have "typeKeys exLib [runeKey CHR ''f'', runeKey CHR ''x''] (exInput [] 0 ModeNormal)
        \<noteq> exInput [] 0 ModeNormal" by auto
  with a b show ?thesis by blast
qed

lemma normalReady_pressKey_find:
  assumes "normalReady m"
  shows "normalReady (typeKeys L [runeKey CHR ''f'', runeKey c] m)"
    and "normalReady (typeKeys L [runeKey CHR ''F'', runeKey c] m)"
  using pressKey_find_ready [OF assms, of "runeKey CHR ''f''" L "runeKey c"]
    pressKey_find_ready [OF assms, of "runeKey CHR ''F''" L "runeKey c"]
  by (simp_all add: runeKey_def findMotion_def)

text \<open>
  C2 (as the code has it). On a text of single-byte (ASCII) characters, in normal mode
  with the cursor inside the text, \<open>f c\<close> (\<open>F c\<close>) for an ASCII character \<open>c\<close> moves the
  cursor to the next (previous) occurrence of \<open>c\<close>, and leaves it where it is when there
  is none. Found or not, \<open>c\<close> and the direction become the remembered search: \<open>;\<close> then
  searches the remembered character in the remembered direction and \<open>,\<close> in the opposite
  one, and neither changes what is remembered.
\<close>

theorem find_records_last_used_char:
  assumes "normalReady m" and "isASCII (ti_value (textInput m))" and "isASCII [c]"
  shows "searchedForward (ti_value (textInput m)) c (ti_pos (textInput m))
           (ti_pos (textInput (typeKeys L [runeKey CHR ''f'', runeKey c] m)))
       \<and> lastFindChar (typeKeys L [runeKey CHR ''f'', runeKey c] m) = c
       \<and> lastFindDir (typeKeys L [runeKey CHR ''f'', runeKey c] m) = 1
       \<and> ti_value (textInput (typeKeys L [runeKey CHR ''f'', runeKey c] m)) = ti_value (textInput m)
       \<and> normalReady (typeKeys L [runeKey CHR ''f'', runeKey c] m)
       \<and> searchedBackward (ti_value (textInput m)) c (ti_pos (textInput m))
           (ti_pos (textInput (typeKeys L [runeKey CHR ''F'', runeKey c] m)))
       \<and> lastFindChar (typeKeys L [runeKey CHR ''F'', runeKey c] m) = c
       \<and> lastFindDir (typeKeys L [runeKey CHR ''F'', runeKey c] m) = - 1
       \<and> ti_value (textInput (typeKeys L [runeKey CHR ''F'', runeKey c] m)) = ti_value (textInput m)
       \<and> normalReady (typeKeys L [runeKey CHR ''F'', runeKey c] m)
       \<and> (lastFindChar m \<noteq> CHR 0x00 \<longrightarrow>
            (if lastFindDir m > 0
             then searchedForward (ti_value (textInput m)) (lastFindChar m) (ti_pos (textInput m))
                    (ti_pos (textInput (typeKeys L [runeKey CHR '';''] m)))
             else searchedBackward (ti_value (textInput m)) (lastFindChar m) (ti_pos (textInput m))
                    (ti_pos (textInput (typeKeys L [runeKey CHR '';''] m))))
          \<and> (if lastFindDir m < 0
             then searchedForward (ti_value (textInput m)) (lastFindChar m) (ti_pos (textInput m))
                    (ti_pos (textInput (typeKeys L [runeKey CHR '',''] m)))
             else searchedBackward (ti_value (textInput m)) (lastFindChar m) (ti_pos (textInput m))
                    (ti_pos (textInput (typeKeys L [runeKey CHR '',''] m))))
          \<and> lastFindChar (typeKeys L [runeKey CHR '';''] m) = lastFindChar m
          \<and> lastFindDir (typeKeys L [runeKey CHR '';''] m) = lastFindDir m
          \<and> lastFindChar (typeKeys L [runeKey CHR '',''] m) = lastFindChar m
          \<and> lastFindDir (typeKeys L [runeKey CHR '',''] m) = lastFindDir m)"
proof -
  from assms(1) have b: "0 \<le> ti_pos (textInput m)"
    "ti_pos (textInput m) \<le> int (length (ti_value (textInput m)))"
    by (simp_all add: normalReady_def)
  have rc: "RuneCountInString (ti_value (textInput m)) = length (ti_value (textInput m))"
    using assms(2) by (rule RuneCountInString_ASCII)
  let ?mf = "m\<lparr>lastFindChar := c, lastFindDir := 1\<rparr>"
  let ?mb = "m\<lparr>lastFindChar := c, lastFindDir := - 1\<rparr>"
  have f: "pressKey L (runeKey c) (pressKey L (runeKey CHR ''f'') m) =
      setCursorIfFound (findForward (ti_value (textInput m)) c (ti_pos (textInput m) + 1)) ?mf"
    using pressKey_find_arg [OF assms(1), of "runeKey CHR ''f''" L "runeKey c"]
    by (simp add: runeKey_def)
  have F: "pressKey L (runeKey c) (pressKey L (runeKey CHR ''F'') m) =
      setCursorIfFound (findBackward (ti_value (textInput m)) c (ti_pos (textInput m) - 1)) ?mb"
    using pressKey_Find_arg [OF assms(1), of "runeKey CHR ''F''" L "runeKey c"]
    by (simp add: runeKey_def)
  have sf: "searchedForward (ti_value (textInput m)) c (ti_pos (textInput m))
           (ti_pos (textInput (typeKeys L [runeKey CHR ''f'', runeKey c] m)))"
    using setCursorIfFound_forward [of ?mf c] b rc by (simp add: f)
  have sb: "searchedBackward (ti_value (textInput m)) c (ti_pos (textInput m))
           (ti_pos (textInput (typeKeys L [runeKey CHR ''F'', runeKey c] m)))"
    using setCursorIfFound_backward [of ?mb c] b rc by (simp add: F)
  have semi: "pressKey L (runeKey CHR '';'') m =
     (if lastFindChar m = CHR 0x00 then m
      else if lastFindDir m > 0
      then setCursorIfFound
             (findForward (ti_value (textInput m)) (lastFindChar m) (ti_pos (textInput m) + 1)) m
      else setCursorIfFound
             (findBackward (ti_value (textInput m)) (lastFindChar m) (ti_pos (textInput m) - 1)) m)"
    using pressKey_semicolon [OF assms(1), of "runeKey CHR '';''" L] by (simp add: runeKey_def)
  have comma: "pressKey L (runeKey CHR '','') m =
     (if lastFindChar m = CHR 0x00 then m
      else if lastFindDir m < 0
      then setCursorIfFound
             (findForward (ti_value (textInput m)) (lastFindChar m) (ti_pos (textInput m) + 1)) m
      else setCursorIfFound
             (findBackward (ti_value (textInput m)) (lastFindChar m) (ti_pos (textInput m) - 1)) m)"
    using pressKey_comma [OF assms(1), of "runeKey CHR '',''" L] by (simp add: runeKey_def)
  have rep: "lastFindChar m \<noteq> CHR 0x00 \<longrightarrow>
            (if lastFindDir m > 0
             then searchedForward (ti_value (textInput m)) (lastFindChar m) (ti_pos (textInput m))
                    (ti_pos (textInput (typeKeys L [runeKey CHR '';''] m)))
             else searchedBackward (ti_value (textInput m)) (lastFindChar m) (ti_pos (textInput m))
                    (ti_pos (textInput (typeKeys L [runeKey CHR '';''] m))))
          \<and> (if lastFindDir m < 0
             then searchedForward (ti_value (textInput m)) (lastFindChar m) (ti_pos (textInput m))
                    (ti_pos (textInput (typeKeys L [runeKey CHR '',''] m)))
             else searchedBackward (ti_value (textInput m)) (lastFindChar m) (ti_pos (textInput m))
                    (ti_pos (textInput (typeKeys L [runeKey CHR '',''] m))))
          \<and> lastFindChar (typeKeys L [runeKey CHR '';''] m) = lastFindChar m
          \<and> lastFindDir (typeKeys L [runeKey CHR '';''] m) = lastFindDir m
          \<and> lastFindChar (typeKeys L [runeKey CHR '',''] m) = lastFindChar m
          \<and> lastFindDir (typeKeys L [runeKey CHR '',''] m) = lastFindDir m"
    using setCursorIfFound_forward [OF b(1) rc, of "lastFindChar m"]
      setCursorIfFound_backward [OF b(2) rc, of "lastFindChar m"]
    by (simp add: semi comma)
  have o: "lastFindChar (typeKeys L [runeKey CHR ''f'', runeKey c] m) = c"
    "lastFindDir (typeKeys L [runeKey CHR ''f'', runeKey c] m) = 1"
    "ti_value (textInput (typeKeys L [runeKey CHR ''f'', runeKey c] m)) = ti_value (textInput m)"
    "lastFindChar (typeKeys L [runeKey CHR ''F'', runeKey c] m) = c"
    "lastFindDir (typeKeys L [runeKey CHR ''F'', runeKey c] m) = - 1"
    "ti_value (textInput (typeKeys L [runeKey CHR ''F'', runeKey c] m)) = ti_value (textInput m)"
    by (simp_all add: f F)
  from sf sb rep o normalReady_pressKey_find [OF assms(1), of L c] show ?thesis by blast
qed

theorem find_records_last_used_char_witness:
  "normalReady (exInput ''cbc'' 1 ModeNormal)
   \<and> isASCII (ti_value (textInput (exInput ''cbc'' 1 ModeNormal)))
   \<and> isASCII [CHR ''c''] \<and> isASCII [CHR ''z'']
   \<and> searchedForward ''cbc'' CHR ''c'' 1
        (ti_pos (textInput (typeKeys exLib [runeKey CHR ''f'', runeKey CHR ''c''] (exInput ''cbc'' 1 ModeNormal))))
   \<and> ti_pos (textInput (typeKeys exLib [runeKey CHR ''f'', runeKey CHR ''c''] (exInput ''cbc'' 1 ModeNormal))) = 2
   \<and> lastFindChar (typeKeys exLib [runeKey CHR ''f'', runeKey CHR ''c''] (exInput ''cbc'' 1 ModeNormal)) = CHR ''c''
   \<and> lastFindChar (typeKeys exLib [runeKey CHR ''F'', runeKey CHR ''z''] (exInput ''cbc'' 1 ModeNormal)) = CHR ''z''
   \<and> normalReady exFound \<and> isASCII (ti_value (textInput exFound)) \<and> lastFindChar exFound \<noteq> CHR 0x00
   \<and> searchedBackward ''cbc'' CHR ''c'' 2 (ti_pos (textInput (typeKeys exLib [runeKey CHR '',''] exFound)))
   \<and> ti_pos (textInput (typeKeys exLib [runeKey CHR '',''] exFound)) = 0"
proof -
  have r1: "normalReady (exInput ''cbc'' 1 ModeNormal)" and r2: "normalReady exFound"
    by (simp_all add: normalReady_def exInput_def exFound_def)
  have v1: "ti_value (textInput (exInput ''cbc'' 1 ModeNormal)) = ''cbc''"
    "ti_pos (textInput (exInput ''cbc'' 1 ModeNormal)) = 1"
    and v2: "ti_value (textInput exFound) = ''cbc''" "ti_pos (textInput exFound) = 2"
    "lastFindChar exFound = CHR ''c''" "lastFindDir exFound = 1"
    by (simp_all add: exInput_def exFound_def)
  have a1: "isASCII (ti_value (textInput (exInput ''cbc'' 1 ModeNormal)))"
    and a2: "isASCII (ti_value (textInput exFound))"
    and ac: "isASCII [CHR ''c'']" and az: "isASCII [CHR ''z'']"
    by (simp_all add: v1 v2 isASCII_def)
  have e1: "ti_pos (textInput (typeKeys exLib [runeKey CHR ''f'', runeKey CHR ''c''] (exInput ''cbc'' 1 ModeNormal))) = 2"
    by code_simp
  have e2: "ti_pos (textInput (typeKeys exLib [runeKey CHR '',''] exFound)) = 0"
    by code_simp
  note w1 = find_records_last_used_char [OF r1 a1 ac, of exLib]
  note w2 = find_records_last_used_char [OF r1 a1 az, of exLib]
  note w3 = find_records_last_used_char [OF r2 a2 ac, of exLib]
  have a: "searchedForward ''cbc'' CHR ''c'' 1
        (ti_pos (textInput (typeKeys exLib [runeKey CHR ''f'', runeKey CHR ''c''] (exInput ''cbc'' 1 ModeNormal))))"
    "lastFindChar (typeKeys exLib [runeKey CHR ''f'', runeKey CHR ''c''] (exInput ''cbc'' 1 ModeNormal)) = CHR ''c''"
    using w1 unfolding v1 by blast+
  have b: "lastFindChar (typeKeys exLib [runeKey CHR ''F'', runeKey CHR ''z''] (exInput ''cbc'' 1 ModeNormal)) = CHR ''z''"
    using w2 by blast
  have n0: "lastFindChar exFound \<noteq> CHR 0x00" by (simp add: v2)
  have "\<not> lastFindDir exFound < 0" by (simp add: v2)
  with w3 n0 have c: "searchedBackward ''cbc'' CHR ''c'' 2 (ti_pos (textInput (typeKeys exLib [runeKey CHR '',''] exFound)))"
    unfolding v2 by presburger
  from r1 r2 a1 a2 ac az a b c e1 e2 n0 show ?thesis by blast
qed

text \<open>
  C2 as stated fails: on \<open>cbc\<close> with the cursor on \<open>b\<close>, \<open>fc\<close> finds the last \<open>c\<close> and
  \<open>,\<close> would go back to the first one; after the failing \<open>fz\<close> the remembered character
  is \<open>z\<close> and \<open>,\<close> does not move.
\<close>

theorem failed_find_keeps_memory_counterexample:
  "lastFindChar (typeKeys exLib [runeKey CHR ''f'', runeKey CHR ''c''] (exInput ''cbc'' 1 ModeNormal)) = CHR ''c''
   \<and> ti_pos (textInput (typeKeys exLib [runeKey CHR ''f'', runeKey CHR ''c''] (exInput ''cbc'' 1 ModeNormal))) = 2
   \<and> ti_pos (textInput (typeKeys exLib [runeKey CHR ''f'', runeKey CHR ''c'', runeKey CHR '','']
        (exInput ''cbc'' 1 ModeNormal))) = 0
   \<and> ti_pos (textInput (typeKeys exLib [runeKey CHR ''f'', runeKey CHR ''c'', runeKey CHR ''f'', runeKey CHR ''z'']
        (exInput ''cbc'' 1 ModeNormal))) = 2
   \<and> lastFindChar (typeKeys exLib [runeKey CHR ''f'', runeKey CHR ''c'', runeKey CHR ''f'', runeKey CHR ''z'']
        (exInput ''cbc'' 1 ModeNormal)) = CHR ''z''
   \<and> ti_pos (textInput (typeKeys exLib
          [runeKey CHR ''f'', runeKey CHR ''c'', runeKey CHR ''f'', runeKey CHR ''z'', runeKey CHR '','']
        (exInput ''cbc'' 1 ModeNormal))) = 2"
  by code_simp

text \<open>
  Why the text has to be ASCII: the search loops find a byte index and hand it to
  \<open>SetCursor\<close>, which counts runes. On the text of \<open>exAccents\<close> (four characters in six
  bytes, the \<open>a\<close> at character index 3 and byte index 5) \<open>fa\<close> from the start finds byte
  index 5, and the cursor ends at 4, the end of the text, not on the \<open>a\<close>.
\<close>

lemma find_on_multibyte_text:
  "normalReady (exInput exAccents 0 ModeNormal)
   \<and> \<not> isASCII exAccents
   \<and> findForward exAccents CHR ''a'' 1 = Some 5
   \<and> RuneCountInString exAccents = 4
   \<and> splitRunes exAccents ! 3 = ''a''
   \<and> ti_pos (textInput (typeKeys exLib [runeKey CHR ''f'', runeKey CHR ''a''] (exInput exAccents 0 ModeNormal))) = 4"
  by code_simp

lemma Update_enter:
  assumes "in_focused m" and "mode m = ModeInsert \<or> pendingAction m = PendingNone"
  shows "InputModel_Update L (TeaKeyMsg enterKey) m = pressEnter L m"
proof (cases "mode m")
  case ModeInsert
  with assms(1) show ?thesis
    by (simp add: InputModel_Update_def handleInsertMode_def enterKey_def)
next
  case ModeNormal
  with assms have "pendingAction m = PendingNone" by simp
  with ModeNormal assms(1) show ?thesis
    by (simp add: InputModel_Update_def handleNormalMode_def handleNormalKey_def enterKey_def)
qed

lemma InputModel_SetValue_fields:
  "draftContent (InputModel_SetValue L v m) = v"
  "in_focused (InputModel_SetValue L v m) = in_focused m"
  "mode (InputModel_SetValue L v m) = mode m"
  "pendingAction (InputModel_SetValue L v m) = pendingAction m"
  by (simp_all add: InputModel_SetValue_def Let_def)

text \<open>
  C3 (as the code has it). In a focused editor, in insert mode or in normal mode with no
  command pending, Enter submits the draft trimmed of surrounding white space
  (\<open>strings.TrimSpace\<close>) when that is not empty, so a draft that trimming leaves as it is
  (as the editor bridge delivers it) is submitted exactly, whatever the single-line
  preview shows, also right after \<open>SetValue\<close>; otherwise it submits the single-line text
  trimmed of surrounding white space when that is not empty; when both are blank nothing
  is submitted and nothing changes; whenever something is submitted the draft and the
  single-line text are cleared and the sending flag is set.
\<close>

theorem enter_submits_trimmed_draft:
  assumes "in_focused m" and "mode m = ModeInsert \<or> pendingAction m = PendingNone"
  shows "(strTrimSpace L (draftContent m) \<noteq> [] \<longrightarrow>
            snd (InputModel_Update L (TeaKeyMsg enterKey) m)
              = Some (ReturnSendMessageMsg (strTrimSpace L (draftContent m))))
       \<and> (draftContent m \<noteq> [] \<and> strTrimSpace L (draftContent m) = draftContent m \<longrightarrow>
            snd (InputModel_Update L (TeaKeyMsg enterKey) m)
              = Some (ReturnSendMessageMsg (draftContent m)))
       \<and> (strTrimSpace L (draftContent m) = [] \<and> strTrimSpace L (ti_Value (textInput m)) \<noteq> [] \<longrightarrow>
            snd (InputModel_Update L (TeaKeyMsg enterKey) m)
              = Some (ReturnSendMessageMsg (strTrimSpace L (ti_Value (textInput m)))))
       \<and> (strTrimSpace L (draftContent m) = [] \<and> strTrimSpace L (ti_Value (textInput m)) = [] \<longrightarrow>
            InputModel_Update L (TeaKeyMsg enterKey) m = (m, None))
       \<and> (snd (InputModel_Update L (TeaKeyMsg enterKey) m) \<noteq> None \<longrightarrow>
            draftContent (fst (InputModel_Update L (TeaKeyMsg enterKey) m)) = []
            \<and> ti_Value (textInput (fst (InputModel_Update L (TeaKeyMsg enterKey) m))) = []
            \<and> sending (fst (InputModel_Update L (TeaKeyMsg enterKey) m)))
       \<and> (v \<noteq> [] \<and> strTrimSpace L v = v \<longrightarrow>
            snd (InputModel_Update L (TeaKeyMsg enterKey) (InputModel_SetValue L v m))
              = Some (ReturnSendMessageMsg v))"
proof -
  note u = Update_enter [OF assms, of L]
  have sv: "InputModel_Update L (TeaKeyMsg enterKey) (InputModel_SetValue L v m)
      = pressEnter L (InputModel_SetValue L v m)"
    using assms by (intro Update_enter) (simp_all add: InputModel_SetValue_fields)
  have 1: "strTrimSpace L (draftContent m) \<noteq> [] \<longrightarrow>
      snd (pressEnter L m) = Some (ReturnSendMessageMsg (strTrimSpace L (draftContent m)))"
    by (simp add: pressEnter_def sendContent_def Let_def)
  have 2: "draftContent m \<noteq> [] \<and> strTrimSpace L (draftContent m) = draftContent m \<longrightarrow>
      snd (pressEnter L m) = Some (ReturnSendMessageMsg (draftContent m))"
    by (simp add: pressEnter_def sendContent_def Let_def)
  have 3: "strTrimSpace L (draftContent m) = [] \<and> strTrimSpace L (ti_Value (textInput m)) \<noteq> [] \<longrightarrow>
      snd (pressEnter L m) = Some (ReturnSendMessageMsg (strTrimSpace L (ti_Value (textInput m))))"
    by (simp add: pressEnter_def sendContent_def Let_def)
  have 4: "strTrimSpace L (draftContent m) = [] \<and> strTrimSpace L (ti_Value (textInput m)) = [] \<longrightarrow>
      pressEnter L m = (m, None)"
    by (simp add: pressEnter_def sendContent_def Let_def)
  have 5: "snd (pressEnter L m) \<noteq> None \<longrightarrow>
      draftContent (fst (pressEnter L m)) = [] \<and> ti_Value (textInput (fst (pressEnter L m))) = []
      \<and> sending (fst (pressEnter L m))"
    by (simp add: pressEnter_def Let_def ti_Value_def ti_Reset_value)
  have 6: "v \<noteq> [] \<and> strTrimSpace L v = v \<longrightarrow>
      snd (pressEnter L (InputModel_SetValue L v m)) = Some (ReturnSendMessageMsg v)"
    by (simp add: pressEnter_def sendContent_def Let_def InputModel_SetValue_fields)
  from 1 2 3 4 5 6 show ?thesis unfolding u sv by blast
qed

theorem enter_submits_trimmed_draft_witness:
  "in_focused (exDraft exMultiLine ''hi [+1 lines]'' ModeInsert PendingNone)
   \<and> exMultiLine \<noteq> [] \<and> strTrimSpace exLib exMultiLine = exMultiLine
   \<and> snd (InputModel_Update exLib (TeaKeyMsg enterKey) (exDraft exMultiLine ''hi [+1 lines]'' ModeInsert PendingNone))
        = Some (ReturnSendMessageMsg exMultiLine)
   \<and> draftContent (fst (InputModel_Update exLib (TeaKeyMsg enterKey) (exDraft exMultiLine ''hi [+1 lines]'' ModeInsert PendingNone))) = []
   \<and> ti_Value (textInput (fst (InputModel_Update exLib (TeaKeyMsg enterKey) (exDraft exMultiLine ''hi [+1 lines]'' ModeInsert PendingNone)))) = []
   \<and> sending (fst (InputModel_Update exLib (TeaKeyMsg enterKey) (exDraft exMultiLine ''hi [+1 lines]'' ModeInsert PendingNone)))
   \<and> snd (InputModel_Update exLib (TeaKeyMsg enterKey)
        (InputModel_SetValue exLib exMultiLine (exDraft [] [] ModeInsert PendingNone)))
        = Some (ReturnSendMessageMsg exMultiLine)
   \<and> strTrimSpace exLib (draftContent (exDraft [] '' yo '' ModeNormal PendingNone)) = []
   \<and> snd (InputModel_Update exLib (TeaKeyMsg enterKey) (exDraft [] '' yo '' ModeNormal PendingNone))
        = Some (ReturnSendMessageMsg ''yo'')
   \<and> InputModel_Update exLib (TeaKeyMsg enterKey) (exDraft [] ''  '' ModeInsert PendingNone)
        = (exDraft [] ''  '' ModeInsert PendingNone, None)"
proof -
  let ?m1 = "exDraft exMultiLine ''hi [+1 lines]'' ModeInsert PendingNone"
  let ?m2 = "exDraft [] '' yo '' ModeNormal PendingNone"
  let ?m3 = "exDraft [] ''  '' ModeInsert PendingNone"
  let ?m4 = "exDraft [] [] ModeInsert PendingNone"
  have f: "in_focused ?m1" "in_focused ?m2" "in_focused ?m3" "in_focused ?m4"
    by (simp_all add: exDraft_def exInput_def)
  have md: "mode ?m1 = ModeInsert \<or> pendingAction ?m1 = PendingNone"
    "mode ?m2 = ModeInsert \<or> pendingAction ?m2 = PendingNone"
    "mode ?m3 = ModeInsert \<or> pendingAction ?m3 = PendingNone"
    "mode ?m4 = ModeInsert \<or> pendingAction ?m4 = PendingNone"
    by (simp_all add: exDraft_def exInput_def)
  have d1: "draftContent ?m1 = exMultiLine" by (simp add: exDraft_def)
  have t: "exMultiLine \<noteq> []" "strTrimSpace exLib exMultiLine = exMultiLine"
    by (simp_all add: exMultiLine_def exLib_def asciiTrimSpace_def asciiSpace_def)
  have t2: "strTrimSpace exLib (draftContent ?m2) = []"
    "strTrimSpace exLib (ti_Value (textInput ?m2)) = ''yo''"
    by (simp_all add: exDraft_def exInput_def exLib_def asciiTrimSpace_def asciiSpace_def ti_Value_def)
  have t3: "strTrimSpace exLib (draftContent ?m3) = []"
    "strTrimSpace exLib (ti_Value (textInput ?m3)) = []"
    by (simp_all add: exDraft_def exInput_def exLib_def asciiTrimSpace_def asciiSpace_def ti_Value_def)
  note w1 = enter_submits_trimmed_draft [OF f(1) md(1), of exLib exMultiLine]
  note w2 = enter_submits_trimmed_draft [OF f(2) md(2), of exLib exMultiLine]
  note w3 = enter_submits_trimmed_draft [OF f(3) md(3), of exLib exMultiLine]
  note w4 = enter_submits_trimmed_draft [OF f(4) md(4), of exLib exMultiLine]
  have a: "snd (InputModel_Update exLib (TeaKeyMsg enterKey) ?m1) = Some (ReturnSendMessageMsg exMultiLine)"
    using w1 [unfolded d1] t by blast
  then have a': "snd (InputModel_Update exLib (TeaKeyMsg enterKey) ?m1) \<noteq> None" by simp
  have b: "draftContent (fst (InputModel_Update exLib (TeaKeyMsg enterKey) ?m1)) = []"
    "ti_Value (textInput (fst (InputModel_Update exLib (TeaKeyMsg enterKey) ?m1))) = []"
    "sending (fst (InputModel_Update exLib (TeaKeyMsg enterKey) ?m1))"
    using w1 a' by blast+
  have c: "snd (InputModel_Update exLib (TeaKeyMsg enterKey) (InputModel_SetValue exLib exMultiLine ?m4))
        = Some (ReturnSendMessageMsg exMultiLine)"
    using w4 t by blast
  have d: "snd (InputModel_Update exLib (TeaKeyMsg enterKey) ?m2) = Some (ReturnSendMessageMsg ''yo'')"
    using w2 [unfolded t2] by simp
  have e: "InputModel_Update exLib (TeaKeyMsg enterKey) ?m3 = (?m3, None)"
    using w3 t3 by blast
  from f(1) t a b c t2(1) d e show ?thesis by blast
qed

text \<open>
  C3 as stated fails for an editor state: in normal mode with \<open>d\<close> pending (the key \<open>d\<close>
  was pressed), Enter is taken as the argument of \<open>d\<close>; nothing is submitted, the draft
  stays, and only the pending command is cancelled.
\<close>

theorem enter_with_pending_command_counterexample:
  "in_focused (exDraft ''hi'' ''hi'' ModeNormal PendingNone)
   \<and> mode (exDraft ''hi'' ''hi'' ModeNormal PendingNone) = ModeNormal
   \<and> pressKey exLib (runeKey CHR ''d'') (exDraft ''hi'' ''hi'' ModeNormal PendingNone)
        = exDraft ''hi'' ''hi'' ModeNormal PendingDelete
   \<and> draftContent (exDraft ''hi'' ''hi'' ModeNormal PendingDelete) = ''hi''
   \<and> snd (InputModel_Update exLib (TeaKeyMsg enterKey) (exDraft ''hi'' ''hi'' ModeNormal PendingDelete))
        = None
   \<and> fst (InputModel_Update exLib (TeaKeyMsg enterKey) (exDraft ''hi'' ''hi'' ModeNormal PendingDelete))
        = exDraft ''hi'' ''hi'' ModeNormal PendingNone
   \<and> draftContent (fst (InputModel_Update exLib (TeaKeyMsg enterKey) (exDraft ''hi'' ''hi'' ModeNormal PendingDelete)))
        = ''hi''
   \<and> sending (fst (InputModel_Update exLib (TeaKeyMsg enterKey) (exDraft ''hi'' ''hi'' ModeNormal PendingDelete)))
        = False"
  by code_simp

section \<open>Properties of the panel controller and the session loop\<close>

lemma go_mod_3:
  "go_mod (0 + 1 + 3) 3 = 1" "go_mod (1 + 1 + 3) 3 = 2" "go_mod (2 + 1 + 3) 3 = 0"
  "go_mod (0 + - 1 + 3) 3 = 2" "go_mod (1 + - 1 + 3) 3 = 0" "go_mod (2 + - 1 + 3) 3 = 1"
  by (simp_all add: go_mod_def signed_modulo_int_def)

lemma cycleFocus_panel:
  "focusedPanel (cycleFocus d a) = go_mod (focusedPanel a + d + 3) 3"
  by (simp add: cycleFocus_def unfocusAll_def Let_def)

lemma cycleFocus_flags:
  assumes "go_mod (focusedPanel a + d + 3) 3 \<in> {PanelContacts, PanelMessages, PanelInput}"
  shows "ct_focused (contacts (cycleFocus d a)) = (focusedPanel (cycleFocus d a) = PanelContacts)"
    and "ms_focused (messages (cycleFocus d a)) = (focusedPanel (cycleFocus d a) = PanelMessages)"
    and "in_focused (input (cycleFocus d a)) = (focusedPanel (cycleFocus d a) = PanelInput)"
  using assms
  by (auto simp: cycleFocus_def unfocusAll_def Let_def PanelContacts_def PanelMessages_def
      PanelInput_def ContactsModel_SetFocused_def MessagesModel_SetFocused_def
      InputModel_SetFocused_def)

text \<open>
  C8. From each of the three panels, \<open>cycleFocus 1\<close> applied three times returns the
  focus to the panel it started from, and \<open>cycleFocus 1\<close> followed by \<open>cycleFocus (-1)\<close>
  does too: the focused panel is the original one and exactly its component holds the
  focus flag. One step always moves to another of the three panels.
\<close>

theorem cycleFocus_cyclic:
  assumes "focusedPanel a \<in> {PanelContacts, PanelMessages, PanelInput}"
  shows "focusedPanel (cycleFocus 1 (cycleFocus 1 (cycleFocus 1 a))) = focusedPanel a
       \<and> focusedPanel (cycleFocus (- 1) (cycleFocus 1 a)) = focusedPanel a
       \<and> focusedPanel (cycleFocus 1 a) \<noteq> focusedPanel a
       \<and> focusedPanel (cycleFocus 1 a) \<in> {PanelContacts, PanelMessages, PanelInput}
       \<and> focusedPanel (cycleFocus (- 1) a) \<in> {PanelContacts, PanelMessages, PanelInput}
       \<and> ct_focused (contacts (cycleFocus (- 1) (cycleFocus 1 a))) = (focusedPanel a = PanelContacts)
       \<and> ms_focused (messages (cycleFocus (- 1) (cycleFocus 1 a))) = (focusedPanel a = PanelMessages)
       \<and> in_focused (input (cycleFocus (- 1) (cycleFocus 1 a))) = (focusedPanel a = PanelInput)
       \<and> ct_focused (contacts (cycleFocus 1 (cycleFocus 1 (cycleFocus 1 a)))) = (focusedPanel a = PanelContacts)
       \<and> ms_focused (messages (cycleFocus 1 (cycleFocus 1 (cycleFocus 1 a)))) = (focusedPanel a = PanelMessages)
       \<and> in_focused (input (cycleFocus 1 (cycleFocus 1 (cycleFocus 1 a)))) = (focusedPanel a = PanelInput)"
proof -
  from assms consider "focusedPanel a = 0" | "focusedPanel a = 1" | "focusedPanel a = 2"
    by (auto simp: PanelContacts_def PanelMessages_def PanelInput_def)
  then show ?thesis
  proof cases
    case 1
    have p: "focusedPanel (cycleFocus 1 a) = 1"
      "focusedPanel (cycleFocus 1 (cycleFocus 1 a)) = 2"
      "focusedPanel (cycleFocus 1 (cycleFocus 1 (cycleFocus 1 a))) = 0"
      "focusedPanel (cycleFocus (- 1) (cycleFocus 1 a)) = 0"
      "focusedPanel (cycleFocus (- 1) a) = 2"
      using 1 go_mod_3 by (simp_all add: cycleFocus_panel)
    show ?thesis
      using 1 p cycleFocus_flags [of "cycleFocus 1 a" "- 1"]
        cycleFocus_flags [of "cycleFocus 1 (cycleFocus 1 a)" 1] go_mod_3
      by (simp add: PanelContacts_def PanelMessages_def PanelInput_def)
  next
    case 2
    have p: "focusedPanel (cycleFocus 1 a) = 2"
      "focusedPanel (cycleFocus 1 (cycleFocus 1 a)) = 0"
      "focusedPanel (cycleFocus 1 (cycleFocus 1 (cycleFocus 1 a))) = 1"
      "focusedPanel (cycleFocus (- 1) (cycleFocus 1 a)) = 1"
      "focusedPanel (cycleFocus (- 1) a) = 0"
      using 2 go_mod_3 by (simp_all add: cycleFocus_panel)
    show ?thesis
      using 2 p cycleFocus_flags [of "cycleFocus 1 a" "- 1"]
        cycleFocus_flags [of "cycleFocus 1 (cycleFocus 1 a)" 1] go_mod_3
      by (simp add: PanelContacts_def PanelMessages_def PanelInput_def)
  next
    case 3
    have p: "focusedPanel (cycleFocus 1 a) = 0"
      "focusedPanel (cycleFocus 1 (cycleFocus 1 a)) = 1"
      "focusedPanel (cycleFocus 1 (cycleFocus 1 (cycleFocus 1 a))) = 2"
      "focusedPanel (cycleFocus (- 1) (cycleFocus 1 a)) = 2"
      "focusedPanel (cycleFocus (- 1) a) = 1"
      using 3 go_mod_3 by (simp_all add: cycleFocus_panel)
    show ?thesis
      using 3 p cycleFocus_flags [of "cycleFocus 1 a" "- 1"]
        cycleFocus_flags [of "cycleFocus 1 (cycleFocus 1 a)" 1] go_mod_3
      by (simp add: PanelContacts_def PanelMessages_def PanelInput_def)
  qed
qed

text \<open>
  C8 at the input panel: one step leads to the conversation list, three steps and a
  step forth and back lead to the input panel again.
\<close>

theorem cycleFocus_cyclic_witness:
  "focusedPanel (exApp PanelInput (exInput ''draft'' 2 ModeNormal)) \<in> {PanelContacts, PanelMessages, PanelInput}
   \<and> focusedPanel (cycleFocus 1 (exApp PanelInput (exInput ''draft'' 2 ModeNormal))) = PanelContacts
   \<and> focusedPanel (cycleFocus 1 (cycleFocus 1 (cycleFocus 1 (exApp PanelInput (exInput ''draft'' 2 ModeNormal))))) = PanelInput
   \<and> focusedPanel (cycleFocus (- 1) (cycleFocus 1 (exApp PanelInput (exInput ''draft'' 2 ModeNormal)))) = PanelInput"
proof -
  have p: "focusedPanel (exApp PanelInput (exInput ''draft'' 2 ModeNormal)) = PanelInput"
    by (simp add: exApp_def)
  then have h: "focusedPanel (exApp PanelInput (exInput ''draft'' 2 ModeNormal)) \<in> {PanelContacts, PanelMessages, PanelInput}"
    by simp
  have c: "focusedPanel (cycleFocus 1 (exApp PanelInput (exInput ''draft'' 2 ModeNormal))) = PanelContacts"
  proof -
    have "focusedPanel (exApp PanelInput (exInput ''draft'' 2 ModeNormal)) = 2"
      by (simp add: exApp_def PanelInput_def)
    then show ?thesis
      by (simp add: cycleFocus_panel PanelContacts_def go_mod_def signed_modulo_int_def)
  qed
  from cycleFocus_cyclic [OF h] h c show ?thesis unfolding p by blast
qed

lemma InputModel_Update_notify:
  "InputModel_Update L MessageFailedNotifyMsg m = (m\<lparr>sending := False\<rparr>, None)"
  "InputModel_Update L MessageSentNotifyMsg m = (m\<lparr>sending := False\<rparr>, None)"
  by (simp_all add: InputModel_Update_def)

lemma widgetUpdate_fields:
  "sending (fst (widgetUpdate L msg m)) = sending m"
  "draftContent (fst (widgetUpdate L msg m)) = draftContent m"
  "mode (fst (widgetUpdate L msg m)) = mode m"
  "in_focused (fst (widgetUpdate L msg m)) = in_focused m"
  "snd (widgetUpdate L msg m) = None \<or> snd (widgetUpdate L msg m) = Some TextInputCmd"
  by (simp_all add: widgetUpdate_def Let_def split: prod.splits)

text \<open>Messages that no component handles by itself: they only reach the widget.\<close>

lemma InputModel_Update_passive:
  assumes "msg = SendMessageMsg c \<or> msg = errorMsg e"
  shows "sending (fst (InputModel_Update L msg m)) = sending m"
    and "snd (InputModel_Update L msg m) = None \<or> snd (InputModel_Update L msg m) = Some TextInputCmd"
  using assms widgetUpdate_fields(1,5) [of L msg m]
  by (auto simp: InputModel_Update_def)

lemma ContactsModel_Update_passive:
  assumes "msg = SendMessageMsg c \<or> msg = errorMsg e"
  shows "ContactsModel_Update msg m = (m, None)"
  using assms by (auto simp: ContactsModel_Update_def)

lemma MessagesModel_Update_passive:
  assumes "msg = SendMessageMsg c \<or> msg = errorMsg e"
  shows "MessagesModel_Update msg m = (m, None)"
  using assms by (auto simp: MessagesModel_Update_def)

text \<open>The second switch of \<open>Update\<close> on such a message.\<close>

lemma updateFocused_passive:
  assumes "msg = SendMessageMsg c \<or> msg = errorMsg e"
  shows "state (fst (updateFocused L msg a cmds)) = state a"
    and "statusMsg (fst (updateFocused L msg a cmds)) = statusMsg a"
    and "err (fst (updateFocused L msg a cmds)) = err a"
    and "focusedPanel (fst (updateFocused L msg a cmds)) = focusedPanel a"
    and "activeConversationID (fst (updateFocused L msg a cmds)) = activeConversationID a"
    and "contacts (fst (updateFocused L msg a cmds)) = contacts a"
    and "messages (fst (updateFocused L msg a cmds)) = messages a"
    and "leaderKeyPressed (fst (updateFocused L msg a cmds)) = leaderKeyPressed a"
    and "sending (input (fst (updateFocused L msg a cmds))) = sending (input a)"
    and "set (snd (updateFocused L msg a cmds))
           \<subseteq> set cmds \<union> {TextInputCmd} \<union> range LoadMessagesCmd"
proof -
  note c = ContactsModel_Update_passive [OF assms] MessagesModel_Update_passive [OF assms]
  note i = InputModel_Update_passive [OF assms, of L "input a"]
  show "state (fst (updateFocused L msg a cmds)) = state a"
    "statusMsg (fst (updateFocused L msg a cmds)) = statusMsg a"
    "err (fst (updateFocused L msg a cmds)) = err a"
    "focusedPanel (fst (updateFocused L msg a cmds)) = focusedPanel a"
    "activeConversationID (fst (updateFocused L msg a cmds)) = activeConversationID a"
    "contacts (fst (updateFocused L msg a cmds)) = contacts a"
    "messages (fst (updateFocused L msg a cmds)) = messages a"
    "leaderKeyPressed (fst (updateFocused L msg a cmds)) = leaderKeyPressed a"
    by (simp_all add: updateFocused_def c Let_def optCmd_def split: prod.splits option.splits)
  show "sending (input (fst (updateFocused L msg a cmds))) = sending (input a)"
    using i(1)
    by (cases "InputModel_Update L msg (input a)")
       (simp add: updateFocused_def c Let_def optCmd_def split: option.splits)
  show "set (snd (updateFocused L msg a cmds)) \<subseteq> set cmds \<union> {TextInputCmd} \<union> range LoadMessagesCmd"
    using i(2)
    by (cases "InputModel_Update L msg (input a)")
       (auto simp: updateFocused_def c Let_def optCmd_def split: option.splits)
qed

text \<open>
  C7. With no active conversation, \<open>sendMessage\<close> returns no command, sets the status
  line to the request to select a conversation and clears the sending flag of the
  editor; the whole \<open>Update\<close> on a \<open>SendMessageMsg\<close> then leaves that status and flag and
  returns no command that sends through the client.
\<close>

theorem sendMessage_without_conversation:
  assumes "activeConversationID a = []"
  shows "snd (sendMessage L content a) = None
       \<and> statusMsg (fst (sendMessage L content a)) = ''Select a conversation first! (Enter in contacts)''
       \<and> sending (input (fst (sendMessage L content a))) = False
       \<and> statusMsg (fst (App_Update L (SendMessageMsg content) a))
            = ''Select a conversation first! (Enter in contacts)''
       \<and> sending (input (fst (App_Update L (SendMessageMsg content) a))) = False
       \<and> ClientSendMessageCmd cid text \<notin> set (snd (App_Update L (SendMessageMsg content) a))"
proof -
  let ?a1 = "a\<lparr>statusMsg := ''Select a conversation first! (Enter in contacts)'',
              input := (input a)\<lparr>sending := False\<rparr>\<rparr>"
  have s: "sendMessage L content a = (?a1, None)"
    using assms by (simp add: sendMessage_def InputModel_Update_notify)
  have u: "App_Update L (SendMessageMsg content) a = updateFocused L (SendMessageMsg content) ?a1 []"
    by (simp add: App_Update_def handleMsg_def s optCmd_def)
  note p = updateFocused_passive [of "SendMessageMsg content" content "[]" L ?a1 "[]"]
  have "ClientSendMessageCmd cid text \<notin> set (snd (updateFocused L (SendMessageMsg content) ?a1 []))"
    using p(10) by auto
  moreover have "statusMsg (fst (updateFocused L (SendMessageMsg content) ?a1 []))
      = ''Select a conversation first! (Enter in contacts)''"
    using p(2) by simp
  moreover have "sending (input (fst (updateFocused L (SendMessageMsg content) ?a1 []))) = False"
    using p(9) by simp
  ultimately show ?thesis by (simp add: s u)
qed

text \<open>
  C7 on a connected application whose editor shows the sending indicator.
\<close>

theorem sendMessage_without_conversation_witness:
  "activeConversationID (exApp PanelInput ((exInput [] 0 ModeInsert)\<lparr>sending := True\<rparr>)) = []
   \<and> sending (input (exApp PanelInput ((exInput [] 0 ModeInsert)\<lparr>sending := True\<rparr>)))
   \<and> snd (sendMessage exLib ''hello'' (exApp PanelInput ((exInput [] 0 ModeInsert)\<lparr>sending := True\<rparr>))) = None
   \<and> statusMsg (fst (sendMessage exLib ''hello'' (exApp PanelInput ((exInput [] 0 ModeInsert)\<lparr>sending := True\<rparr>))))
        = ''Select a conversation first! (Enter in contacts)''
   \<and> sending (input (fst (sendMessage exLib ''hello'' (exApp PanelInput ((exInput [] 0 ModeInsert)\<lparr>sending := True\<rparr>))))) = False
   \<and> snd (App_Update exLib (SendMessageMsg ''hello'') (exApp PanelInput ((exInput [] 0 ModeInsert)\<lparr>sending := True\<rparr>))) = []"
proof -
  let ?a = "exApp PanelInput ((exInput [] 0 ModeInsert)\<lparr>sending := True\<rparr>)"
  have h: "activeConversationID ?a = []" and s: "sending (input ?a)"
    by (simp_all add: exApp_def exInput_def)
  have e: "snd (App_Update exLib (SendMessageMsg ''hello'') ?a) = []"
    by code_simp
  from sendMessage_without_conversation [OF h, of exLib "''hello''"] h s e
  show ?thesis by blast
qed













lemma chordKey_cfg: "cfg a' = cfg a \<Longrightarrow> chordKey k a' = chordKey k a"
  by (simp add: chordKey_def)

















section \<open>Properties of the contact search\<close>

lemma Contains_subseq: "Contains t q \<Longrightarrow> subseq q t"
proof (induction t)
  case Nil
  then show ?case by simp
next
  case (Cons c s)
  from Cons.prems have "prefix q (c # s) \<or> Contains s q" by simp
  then show ?case
  proof
    assume "prefix q (c # s)"
    then show ?thesis by (rule prefix_imp_subseq)
  next
    assume "Contains s q"
    then have "subseq q s" by (rule Cons.IH)
    then show ?thesis by (rule list_emb_Cons)
  qed
qed

lemma fuzzyLoop_miss:
  "i < length target \<Longrightarrow> queryIdx < length query \<Longrightarrow> target ! i \<noteq> query ! queryIdx \<Longrightarrow>
     fuzzyLoop query target i queryIdx sc lm cons = fuzzyLoop query target (i + 1) queryIdx sc lm cons"
  by (subst fuzzyLoop.simps) simp

lemma fuzzyLoop_stop:
  "\<not> (i < length target \<and> queryIdx < length query) \<Longrightarrow>
     fuzzyLoop query target i queryIdx sc lm cons = (queryIdx, sc)"
  by (subst fuzzyLoop.simps) (simp only: if_False)

text \<open>The state of the loop after a matching character.\<close>

lemma fuzzyLoop_hit:
  assumes "i < length target" and "queryIdx < length query" and "target ! i = query ! queryIdx"
    and "0 \<le> cons"
  shows "\<exists>sc' cons'. sc + 10 \<le> sc' \<and> 0 \<le> cons'
       \<and> fuzzyLoop query target i queryIdx sc lm cons
           = fuzzyLoop query target (i + 1) (queryIdx + 1) sc' (int i) cons'"
proof -
  let ?cons = "if lm = int i - 1 then cons + 1 else 0"
  let ?sc1 = "if lm = int i - 1 then sc + 10 + ?cons * 5 else sc + 10"
  let ?sc2 = "if i = 0 \<or> target ! (i - 1) = CHR '' '' \<or> target ! (i - 1) = CHR ''-''
                 \<or> target ! (i - 1) = CHR ''_'' then ?sc1 + 20 else ?sc1"
  have "fuzzyLoop query target i queryIdx sc lm cons
      = fuzzyLoop query target (i + 1) (queryIdx + 1) ?sc2 (int i) ?cons"
    using assms(1-3) by (subst fuzzyLoop.simps) (simp add: Let_def)
  moreover have "sc + 10 \<le> ?sc2" using assms(4) by simp
  moreover have "0 \<le> ?cons" using assms(4) by simp
  ultimately show ?thesis by blast
qed

lemma fuzzyLoop_spec:
  "queryIdx \<le> length query \<Longrightarrow> 0 \<le> cons \<Longrightarrow>
   fst (fuzzyLoop query target i queryIdx sc lm cons) \<le> length query
   \<and> (fst (fuzzyLoop query target i queryIdx sc lm cons) = length query
        \<longleftrightarrow> subseq (drop queryIdx query) (drop i target))
   \<and> sc + 10 * (int (fst (fuzzyLoop query target i queryIdx sc lm cons)) - int queryIdx)
        \<le> snd (fuzzyLoop query target i queryIdx sc lm cons)"
proof (induction "length target - i" arbitrary: i queryIdx sc lm cons)
  case 0
  then have "\<not> (i < length target \<and> queryIdx < length query)" by simp
  then have r: "fuzzyLoop query target i queryIdx sc lm cons = (queryIdx, sc)"
    by (rule fuzzyLoop_stop)
  from 0 have "drop i target = []" by simp
  with r "0.prems" show ?case by (auto dest: list_emb_Nil2)
next
  case (Suc n)
  then have it: "i < length target" by simp
  have dt: "drop i target = target ! i # drop (i + 1) target"
    using it by (simp add: Cons_nth_drop_Suc)
  show ?case
  proof (cases "queryIdx < length query")
    case False
    then have r: "fuzzyLoop query target i queryIdx sc lm cons = (queryIdx, sc)"
      by (simp add: fuzzyLoop_stop)
    from False Suc.prems have "drop queryIdx query = []" by simp
    with r Suc.prems False show ?thesis by auto
  next
    case True
    have dq: "drop queryIdx query = query ! queryIdx # drop (queryIdx + 1) query"
      using True by (simp add: Cons_nth_drop_Suc)
    have n: "n = length target - (i + 1)" using Suc.hyps(2) by simp
    show ?thesis
    proof (cases "target ! i = query ! queryIdx")
      case hit: True
      from fuzzyLoop_hit [OF it True hit Suc.prems(2), of sc lm]
      obtain sc' cons' where h: "sc + 10 \<le> sc'" "0 \<le> cons'"
        "fuzzyLoop query target i queryIdx sc lm cons
           = fuzzyLoop query target (i + 1) (queryIdx + 1) sc' (int i) cons'" by blast
      have q: "queryIdx + 1 \<le> length query" using True by simp
      note ih = Suc.hyps(1) [OF n q h(2), of sc' "int i"]
      have s: "subseq (drop queryIdx query) (drop i target)
          \<longleftrightarrow> subseq (drop (queryIdx + 1) query) (drop (i + 1) target)"
        unfolding dq dt using hit by simp
      show ?thesis unfolding h(3) s using ih h(1) by auto
    next
      case miss: False
      have e: "fuzzyLoop query target i queryIdx sc lm cons
          = fuzzyLoop query target (i + 1) queryIdx sc lm cons"
        using it True miss by (rule fuzzyLoop_miss)
      note ih = Suc.hyps(1) [OF n Suc.prems, of sc lm]
      have s: "subseq (drop queryIdx query) (drop i target)
          \<longleftrightarrow> subseq (drop queryIdx query) (drop (i + 1) target)"
      proof -
        have "subseq (query ! queryIdx # drop (queryIdx + 1) query) (target ! i # drop (i + 1) target)
          \<longleftrightarrow> subseq (query ! queryIdx # drop (queryIdx + 1) query) (drop (i + 1) target)"
          using miss by simp
        then show ?thesis unfolding dt dq [symmetric] .
      qed
      show ?thesis unfolding e s using ih by auto
    qed
  qed
qed

lemma fuzzyMatch_positive_iff_subseq:
  "0 < fuzzyMatch query target \<longleftrightarrow> subseq query target"
proof (cases "query = []")
  case True
  then show ?thesis by (simp add: fuzzyMatch_def)
next
  case q: False
  show ?thesis
  proof (cases "target = []")
    case True
    with q show ?thesis by (simp add: fuzzyMatch_def)
  next
    case t: False
    show ?thesis
    proof (cases "Contains target query")
      case True
      then have "subseq query target" by (rule Contains_subseq)
      with True q t show ?thesis by (simp add: fuzzyMatch_def)
    next
      case False
      let ?r = "fuzzyLoop query target 0 0 0 (- 1) 0"
      from fuzzyLoop_spec [of 0 query 0 target 0 0 "- 1"]
      have le: "fst ?r \<le> length query"
        and iff: "fst ?r = length query \<longleftrightarrow> subseq query target"
        and sc: "10 * int (fst ?r) \<le> snd ?r" by simp_all
      have m: "fuzzyMatch query target = (if fst ?r < length query then 0 else snd ?r)"
        using q t False by (simp add: fuzzyMatch_def split: prod.splits)
      show ?thesis
      proof (cases "fst ?r < length query")
        case True
        with m iff show ?thesis by simp
      next
        case False
        with le have e: "fst ?r = length query" by simp
        with sc q have "0 < snd ?r" by (cases query) simp_all
        with m e iff show ?thesis by simp
      qed
    qed
  qed
qed

lemma scoreConversations_conv:
  "map conv (scoreConversations L query cs)
     = filter (\<lambda>c. 0 < fuzzyMatch query (strToLower L (Name c))) cs"
  by (induction cs) (simp_all add: Let_def)

lemma getFilteredConversations_mset:
  assumes "searchQuery m \<noteq> []"
  shows "mset (getFilteredConversations L m)
     = mset (filter (\<lambda>c. subseq (strToLower L (searchQuery m)) (strToLower L (Name c)))
          (ct_conversations m))"
proof -
  let ?q = "strToLower L (searchQuery m)"
  let ?rs = "scoreConversations L ?q (ct_conversations m)"
  have "mset (getFilteredConversations L m)
      = image_mset conv (mset (exchangeSort (\<lambda>a b. score a > score b) ?rs))"
    using assms by (simp add: getFilteredConversations_def Let_def)
  also have "\<dots> = image_mset conv (mset ?rs)" by (simp only: mset_exchangeSort)
  also have "\<dots> = mset (map conv ?rs)" by simp
  also have "\<dots> = mset (filter (\<lambda>c. 0 < fuzzyMatch ?q (strToLower L (Name c))) (ct_conversations m))"
    by (simp only: scoreConversations_conv)
  also have "\<dots> = mset (filter (\<lambda>c. subseq ?q (strToLower L (Name c))) (ct_conversations m))"
    by (simp only: fuzzyMatch_positive_iff_subseq)
  finally show ?thesis .
qed

text \<open>
  C9 (as the code has it). With a non-empty search query, the filtered list holds exactly
  the conversations of the list (each as often as it is listed) for which the bytes of the
  lower-cased query occur, in order, among the bytes of the lower-cased name, that is,
  whose fuzzy score is positive; with an empty query the list is returned as it is.
  Lower-casing is \<open>strings.ToLower\<close>, whatever it does to the text. Strings are byte
  strings, so \<open>subseq\<close> compares bytes.
\<close>

theorem search_keeps_subsequence_matches:
  "(searchQuery m \<noteq> [] \<longrightarrow>
      mset (getFilteredConversations L m)
        = mset (filter (\<lambda>c. subseq (strToLower L (searchQuery m)) (strToLower L (Name c)))
             (ct_conversations m))
      \<and> (c \<in> set (getFilteredConversations L m)
           \<longleftrightarrow> c \<in> set (ct_conversations m)
               \<and> subseq (strToLower L (searchQuery m)) (strToLower L (Name c)))
      \<and> (subseq (strToLower L (searchQuery m)) (strToLower L (Name c))
           \<longleftrightarrow> 0 < fuzzyMatch (strToLower L (searchQuery m)) (strToLower L (Name c))))
   \<and> (searchQuery m = [] \<longrightarrow> getFilteredConversations L m = ct_conversations m)"
proof (intro conjI impI)
  assume q: "searchQuery m \<noteq> []"
  show ms: "mset (getFilteredConversations L m)
        = mset (filter (\<lambda>c. subseq (strToLower L (searchQuery m)) (strToLower L (Name c)))
             (ct_conversations m))"
    using q by (rule getFilteredConversations_mset)
  have "set (getFilteredConversations L m)
      = set (filter (\<lambda>c. subseq (strToLower L (searchQuery m)) (strToLower L (Name c)))
           (ct_conversations m))"
    using ms by (rule mset_eq_setD)
  then show "c \<in> set (getFilteredConversations L m)
           \<longleftrightarrow> c \<in> set (ct_conversations m)
               \<and> subseq (strToLower L (searchQuery m)) (strToLower L (Name c))"
    by simp
  show "subseq (strToLower L (searchQuery m)) (strToLower L (Name c))
           \<longleftrightarrow> 0 < fuzzyMatch (strToLower L (searchQuery m)) (strToLower L (Name c))"
    by (simp add: fuzzyMatch_positive_iff_subseq)
next
  assume "searchQuery m = []"
  then show "getFilteredConversations L m = ct_conversations m"
    by (simp add: getFilteredConversations_def)
qed

text \<open>
  C9 on four conversations: the query \<open>AL\<close> keeps \<open>Al Bean\<close> and \<open>Ann Lee\<close> and drops
  \<open>Bob\<close>; the empty query keeps all.
\<close>

theorem search_keeps_subsequence_matches_witness:
  "searchQuery (exSearch ''AL'') \<noteq> []
   \<and> strToLower exLib ''AL'' = ''al''
   \<and> strToLower exLib (Name (exConv ''c'' ''Al Bean'' 20)) = ''al bean''
   \<and> exConv ''c'' ''Al Bean'' 20 \<in> set (getFilteredConversations exLib (exSearch ''AL''))
   \<and> subseq (strToLower exLib ''AL'') (strToLower exLib (Name (exConv ''c'' ''Al Bean'' 20)))
   \<and> exConv ''b'' ''Bob'' 30 \<notin> set (getFilteredConversations exLib (exSearch ''AL''))
   \<and> map Name (getFilteredConversations exLib (exSearch ''AL'')) = [''Al Bean'', ''Ann Lee'']
   \<and> searchQuery (exSearch []) = []
   \<and> getFilteredConversations exLib (exSearch []) = ct_conversations (exSearch [])"
proof -
  have q: "searchQuery (exSearch ''AL'') \<noteq> []" "searchQuery (exSearch []) = []"
    by (simp_all add: exSearch_def)
  have sq: "searchQuery (exSearch ''AL'') = ''AL''" by (simp add: exSearch_def)
  have l: "strToLower exLib ''AL'' = ''al''"
    "strToLower exLib (Name (exConv ''c'' ''Al Bean'' 20)) = ''al bean''"
    by code_simp+
  have i: "exConv ''c'' ''Al Bean'' 20 \<in> set (ct_conversations (exSearch ''AL''))"
    "exConv ''b'' ''Bob'' 30 \<in> set (ct_conversations (exSearch ''AL''))"
    by (simp_all add: exSearch_def exContacts_def)
  have f1: "0 < fuzzyMatch (strToLower exLib ''AL'') (strToLower exLib (Name (exConv ''c'' ''Al Bean'' 20)))"
    by code_simp
  have f2: "\<not> 0 < fuzzyMatch (strToLower exLib ''AL'') (strToLower exLib (Name (exConv ''b'' ''Bob'' 30)))"
    by code_simp
  have e: "map Name (getFilteredConversations exLib (exSearch ''AL'')) = [''Al Bean'', ''Ann Lee'']"
    by code_simp
  note w1 = search_keeps_subsequence_matches
    [of "exSearch ''AL''" exLib "exConv ''c'' ''Al Bean'' 20", unfolded sq]
  note w2 = search_keeps_subsequence_matches
    [of "exSearch ''AL''" exLib "exConv ''b'' ''Bob'' 30", unfolded sq]
  note w3 = search_keeps_subsequence_matches [of "exSearch []" exLib "exConv ''b'' ''Bob'' 30"]
  have a: "subseq (strToLower exLib ''AL'') (strToLower exLib (Name (exConv ''c'' ''Al Bean'' 20)))"
    using w1 f1 by blast
  then have b: "exConv ''c'' ''Al Bean'' 20 \<in> set (getFilteredConversations exLib (exSearch ''AL''))"
    using w1 i(1) by blast
  have "\<not> subseq (strToLower exLib ''AL'') (strToLower exLib (Name (exConv ''b'' ''Bob'' 30)))"
    using w2 f2 by blast
  then have c: "exConv ''b'' ''Bob'' 30 \<notin> set (getFilteredConversations exLib (exSearch ''AL''))"
    using w2 by blast
  have d: "getFilteredConversations exLib (exSearch []) = ct_conversations (exSearch [])"
    using w3 q(2) by blast
  from q l a b c d e show ?thesis by blast
qed

text \<open>
  C9 as stated fails when characters are more than bytes: the query is the one character
  e-acute (bytes \<open>C3 A9\<close>), the name has the three characters a-tilde (\<open>C3 A3\<close>), \<open>a\<close> and
  the copyright sign (\<open>C2 A9\<close>), lower-casing changes neither, and the character of the
  query does not occur in the name; yet its bytes occur in order among the bytes of the
  name, the score is 45 and the conversation is kept.
\<close>

theorem search_matches_bytes_not_characters_counterexample:
  "searchQuery exAccentSearch = exAcuteQuery
   \<and> exAcuteQuery \<noteq> []
   \<and> map Name (ct_conversations exAccentSearch) = [exTildeName]
   \<and> strToLower exLib exAcuteQuery = exAcuteQuery
   \<and> strToLower exLib exTildeName = exTildeName
   \<and> splitRunes exAcuteQuery = [[CHR 0xC3, CHR 0xA9]]
   \<and> splitRunes exTildeName = [[CHR 0xC3, CHR 0xA3], ''a'', [CHR 0xC2, CHR 0xA9]]
   \<and> [CHR 0xC3, CHR 0xA9] \<notin> set (splitRunes exTildeName)
   \<and> fuzzyMatch exAcuteQuery exTildeName = 45
   \<and> getFilteredConversations exLib exAccentSearch = ct_conversations exAccentSearch"
  by code_simp

end
